theory Spec2Isabelle
  imports Main "HOL-Library.AList" "HOL-Library.Multiset" "HOL-Library.Sublist"
begin

text \<open>
  The scripts of the registry template: \<open>scripts/build-registry.ts\<close> with the schemas
  of \<open>schema.ts\<close> it validates against, and the validator of import paths. The first
  sections are the model: the string and path functions the scripts call, their regular
  expressions, the schemas, the file system, and the scripts themselves, statement by
  statement. The sections after \<open>The validator\<close> are the properties and their proofs.
\<close>

section \<open>Strings and POSIX paths\<close>

text \<open>
  Source text, path names and specifiers are \<open>string\<close>s: lists of 8-bit code units.
  The functions of this section model the JavaScript string methods and the functions of
  Node's \<open>path\<close> module (POSIX flavour) that the scripts call.
\<close>

fun startsWith :: "string \<Rightarrow> string \<Rightarrow> bool" where
  "startsWith s [] = True"
| "startsWith [] (p # ps) = False"
| "startsWith (c # cs) (p # ps) = (c = p \<and> startsWith cs ps)"

definition endsWith :: "string \<Rightarrow> string \<Rightarrow> bool" where
  "endsWith s ending = startsWith (rev s) (rev ending)"

text \<open>\<open>s.split(sep)\<close> for a one-character separator: never empty, \<open>"".split("/") = [""]\<close>.\<close>

fun splitOn :: "char \<Rightarrow> string \<Rightarrow> string list" where
  "splitOn sep [] = [[]]"
| "splitOn sep (c # cs) =
     (if c = sep then [] # splitOn sep cs
      else (case splitOn sep cs of [] \<Rightarrow> [[c]] | seg # segs \<Rightarrow> (c # seg) # segs))"

fun joinWith :: "string \<Rightarrow> string list \<Rightarrow> string" where
  "joinWith sep [] = []"
| "joinWith sep [seg] = seg"
| "joinWith sep (seg # segs) = seg @ sep @ joinWith sep segs"

text \<open>\<open>s.replace(pat, by)\<close> with a string pattern: the first occurrence only.\<close>

fun replaceFirst :: "string \<Rightarrow> string \<Rightarrow> string \<Rightarrow> string" where
  "replaceFirst pat by [] = (if pat = [] then by else [])"
| "replaceFirst pat by (c # cs) =
     (if startsWith (c # cs) pat then by @ drop (length pat) (c # cs)
      else c # replaceFirst pat by cs)"

text \<open>
  \<open>normalizeString(path, allowAboveRoot)\<close> of Node's \<open>path\<close>: the segments between
  slashes are read left to right; an empty segment and \<open>.\<close> are dropped, \<open>..\<close> removes
  the segment before it (when there is none, or it is itself \<open>..\<close>, it is kept if
  \<open>allowAboveRoot\<close> and dropped otherwise), every other segment is kept.
\<close>

definition normalizeStep :: "bool \<Rightarrow> string list \<Rightarrow> string \<Rightarrow> string list" where
  "normalizeStep allowAboveRoot res seg =
     (if seg = [] \<or> seg = ''.'' then res
      else if seg = ''..'' then
        (if res = [] \<or> last res = ''..''
         then (if allowAboveRoot then res @ [''..''] else res)
         else butlast res)
      else res @ [seg])"

definition normalizeSegments :: "bool \<Rightarrow> string list \<Rightarrow> string list \<Rightarrow> string list" where
  "normalizeSegments allowAboveRoot res segs = foldl (normalizeStep allowAboveRoot) res segs"

definition normalizeString :: "string \<Rightarrow> bool \<Rightarrow> string" where
  "normalizeString p allowAboveRoot =
     joinWith ''/'' (normalizeSegments allowAboveRoot [] (splitOn CHR ''/'' p))"

text \<open>
  \<open>path.dirname\<close>: trailing slashes and the last segment are cut off, looking only at
  positions from 1 on; what is left of the path is returned as it stands.
\<close>

definition dirname :: "string \<Rightarrow> string" where
  "dirname p =
     (case p of
        [] \<Rightarrow> ''.''
      | c # cs \<Rightarrow>
          (case dropWhile (\<lambda>x. x \<noteq> CHR ''/'') (dropWhile (\<lambda>x. x = CHR ''/'') (rev cs)) of
             [] \<Rightarrow> (if c = CHR ''/'' then ''/'' else ''.'')
           | slash # before \<Rightarrow>
               (if c = CHR ''/'' \<and> before = [] then ''//'' else c # rev before)))"

text \<open>
  \<open>path.extname\<close>: the part of the last segment from its last dot on; empty when that
  segment has no dot, starts with its last dot, or is \<open>..\<close>.
\<close>

definition extname :: "string \<Rightarrow> string" where
  "extname p =
     (let base = rev (takeWhile (\<lambda>x. x \<noteq> CHR ''/'') (dropWhile (\<lambda>x. x = CHR ''/'') (rev p)));
          ext = CHR ''.'' # rev (takeWhile (\<lambda>x. x \<noteq> CHR ''.'') (rev base))
      in if CHR ''.'' \<notin> set base \<or> length ext = length base \<or> base = ''..'' then [] else ext)"

text \<open>
  \<open>path.resolve(...args)\<close>: the arguments are taken from the right until one is absolute
  (empty ones are skipped); when none is, the working directory \<open>cwd\<close> comes last.
\<close>

fun resolveArgs :: "string list \<Rightarrow> string \<Rightarrow> string \<times> bool" where
  "resolveArgs [] resolvedPath = (resolvedPath, False)"
| "resolveArgs (p # ps) resolvedPath =
     (if p = [] then resolveArgs ps resolvedPath
      else if hd p = CHR ''/'' then (p @ ''/'' @ resolvedPath, True)
      else resolveArgs ps (p @ ''/'' @ resolvedPath))"

definition resolve :: "string \<Rightarrow> string list \<Rightarrow> string" where
  "resolve cwd args =
     (case resolveArgs (rev (cwd # args)) [] of
        (resolvedPath, True) \<Rightarrow> ''/'' @ normalizeString resolvedPath False
      | (resolvedPath, False) \<Rightarrow>
          (let r = normalizeString resolvedPath True in if r = [] then ''.'' else r))"

section \<open>Regular expressions of the scripts\<close>

text \<open>
  The three patterns of the scripts use literals, an alternative of literals, character
  classes, a greedy \<open>+\<close> and a lazy \<open>*?\<close> over a class, capture groups and \<open>$\<close>.
  \<open>rmatch\<close> is the backtracking matcher of ECMAScript for these: it matches at the
  start of the text and returns the captures and the text left, trying the
  alternatives in the order the engine does.
\<close>

datatype cls = Space | AnyChar | Quote | NotQuote | WordOrHyphen | NotNewline

definition isSpace :: "char \<Rightarrow> bool" where
  "isSpace c = (c \<in> set [CHR 0x09, CHR 0x0A, CHR 0x0B, CHR 0x0C, CHR 0x0D, CHR 0x20, CHR 0xA0])"

definition isWord :: "char \<Rightarrow> bool" where
  "isWord c = (c \<in> set ''abcdefghijklmnopqrstuvwxyzABCDEFGHIJKLMNOPQRSTUVWXYZ0123456789_'')"

definition isQuote :: "char \<Rightarrow> bool" where
  "isQuote c = (c = CHR 0x22 \<or> c = CHR 0x27)"

fun inCls :: "cls \<Rightarrow> char \<Rightarrow> bool" where
  "inCls Space c = isSpace c"
| "inCls AnyChar c = True"
| "inCls Quote c = isQuote c"
| "inCls NotQuote c = (\<not> isQuote c)"
| "inCls WordOrHyphen c = (isWord c \<or> c = CHR ''-'')"
| "inCls NotNewline c = (c \<noteq> CHR 0x0A \<and> c \<noteq> CHR 0x0D)"

datatype rx =
    Lit string
  | OneOf "string list"
  | Cls cls
  | Plus cls
  | LazyStar cls
  | GroupOpen
  | GroupClose
  | EndOfInput

fun firstSome :: "'a option list \<Rightarrow> 'a option" where
  "firstSome [] = None"
| "firstSome (None # xs) = firstSome xs"
| "firstSome (Some m # xs) = Some m"

fun rmatch :: "rx list \<Rightarrow> string \<Rightarrow> string list \<Rightarrow> string list \<Rightarrow> (string list \<times> string) option" where
  "rmatch [] s opens caps = Some (caps, s)"
| "rmatch (Lit l # r) s opens caps =
     (if startsWith s l then rmatch r (drop (length l) s) opens caps else None)"
| "rmatch (OneOf ls # r) s opens caps =
     firstSome (map (\<lambda>l. if startsWith s l then rmatch r (drop (length l) s) opens caps else None) ls)"
| "rmatch (Cls k # r) [] opens caps = None"
| "rmatch (Cls k # r) (c # cs) opens caps = (if inCls k c then rmatch r cs opens caps else None)"
| "rmatch (Plus k # r) [] opens caps = None"
| "rmatch (Plus k # r) (c # cs) opens caps =
     (if inCls k c
      then (case rmatch (Plus k # r) cs opens caps of
              Some m \<Rightarrow> Some m
            | None \<Rightarrow> rmatch r cs opens caps)
      else None)"
| "rmatch (LazyStar k # r) [] opens caps = rmatch r [] opens caps"
| "rmatch (LazyStar k # r) (c # cs) opens caps =
     (case rmatch r (c # cs) opens caps of
        Some m \<Rightarrow> Some m
      | None \<Rightarrow> if inCls k c then rmatch (LazyStar k # r) cs opens caps else None)"
| "rmatch (GroupOpen # r) s opens caps = rmatch r s (s # opens) caps"
| "rmatch (GroupClose # r) s [] caps = None"
| "rmatch (GroupClose # r) s (b # opens) caps =
     rmatch r s opens (caps @ [take (length b - length s) b])"
| "rmatch (EndOfInput # r) s opens caps = (if s = [] then rmatch r s opens caps else None)"

text \<open>
  \<open>/(?:import|export)\s+[\s\S]*?\s+from\s+["'](\.[^"']+)["']/g\<close> and
  \<open>/(?:import|export)\s+[\s\S]*?\s+from\s+["']@kitn\/([\w-]+)\/([^"']+)["']/g\<close>.
\<close>

definition relativePattern :: "rx list" where
  "relativePattern =
     [OneOf [''import'', ''export''], Plus Space, LazyStar AnyChar, Plus Space, Lit ''from'',
      Plus Space, Cls Quote, GroupOpen, Lit ''.'', Plus NotQuote, GroupClose, Cls Quote]"

definition aliasPattern :: "rx list" where
  "aliasPattern =
     [OneOf [''import'', ''export''], Plus Space, LazyStar AnyChar, Plus Space, Lit ''from'',
      Plus Space, Cls Quote, Lit ''@kitn/'', GroupOpen, Plus WordOrHyphen, GroupClose, Lit ''/'',
      GroupOpen, Plus NotQuote, GroupClose, Cls Quote]"

lemma firstSome_map_rest:
  "firstSome (map f ls) = Some m \<Longrightarrow> \<exists>l \<in> set ls. f l = Some m"
  by (induction ls) (auto split: option.splits if_splits elim: firstSome.elims)

lemma rmatch_rest_le:
  "rmatch p s opens caps = Some (caps', rest) \<Longrightarrow> length rest \<le> length s"
proof (induction p s opens caps arbitrary: caps' rest rule: rmatch.induct)
  case (1 s opens caps)
  then show ?case by simp
next
  case (2 l r s opens caps)
  from "2.prems" have sw: "startsWith s l"
    and m: "rmatch r (drop (length l) s) opens caps = Some (caps', rest)"
    by (simp_all split: if_splits)
  from "2.IH" [OF sw m] show ?case by simp
next
  case (3 ls r s opens caps)
  from firstSome_map_rest [OF "3.prems" [unfolded rmatch.simps]]
  obtain l where l: "l \<in> set ls"
    and m: "(if startsWith s l then rmatch r (drop (length l) s) opens caps else None) = Some (caps', rest)"
    by blast
  then have sw: "startsWith s l" and m': "rmatch r (drop (length l) s) opens caps = Some (caps', rest)"
    by (simp_all split: if_splits)
  from "3.IH" [OF l sw m'] show ?case by simp
next
  case (4 k r opens caps)
  then show ?case by simp
next
  case (5 k r c cs opens caps)
  from "5.prems" have k: "inCls k c" and m: "rmatch r cs opens caps = Some (caps', rest)"
    by (simp_all split: if_splits)
  from "5.IH" [OF k m] show ?case by simp
next
  case (6 k r opens caps)
  then show ?case by simp
next
  case (7 k r c cs opens caps)
  from "7.prems" have k: "inCls k c" by (simp split: if_splits)
  show ?case
  proof (cases "rmatch (Plus k # r) cs opens caps")
    case None
    with "7.prems" k have m: "rmatch r cs opens caps = Some (caps', rest)" by simp
    from "7.IH"(2) [OF k None m] show ?thesis by simp
  next
    case (Some a)
    with "7.prems" k have "rmatch (Plus k # r) cs opens caps = Some (caps', rest)" by simp
    from "7.IH"(1) [OF k this] show ?thesis by simp
  qed
next
  case (8 k r opens caps)
  from "8.prems" have m: "rmatch r [] opens caps = Some (caps', rest)" by simp
  from "8.IH" [OF m] show ?case .
next
  case (9 k r c cs opens caps)
  show ?case
  proof (cases "rmatch r (c # cs) opens caps")
    case None
    with "9.prems" have k: "inCls k c"
      and m: "rmatch (LazyStar k # r) cs opens caps = Some (caps', rest)"
      by (simp_all split: if_splits)
    from "9.IH"(2) [OF None k m] show ?thesis by simp
  next
    case (Some a)
    with "9.prems" have "rmatch r (c # cs) opens caps = Some (caps', rest)" by simp
    from "9.IH"(1) [OF this] show ?thesis .
  qed
next
  case (10 r s opens caps)
  from "10.prems" have m: "rmatch r s (s # opens) caps = Some (caps', rest)" by simp
  from "10.IH" [OF m] show ?case .
next
  case (11 r s caps)
  then show ?case by simp
next
  case (12 r s b opens caps)
  from "12.prems" have m: "rmatch r s opens (caps @ [take (length b - length s) b]) = Some (caps', rest)"
    by simp
  from "12.IH" [OF m] show ?case .
next
  case (13 r s opens caps)
  from "13.prems" have e: "s = []" and m: "rmatch r s opens caps = Some (caps', rest)"
    by (simp_all split: if_splits)
  from "13.IH" [OF e m] show ?case .
qed

lemma startsWith_length: "startsWith s l \<Longrightarrow> length l \<le> length s"
  by (induction s l rule: startsWith.induct) auto

lemma rmatch_keyword_rest_less:
  assumes "rmatch (OneOf [''import'', ''export''] # r) s opens caps = Some (caps', rest)"
  shows "length rest < length s"
proof -
  from firstSome_map_rest [OF assms [unfolded rmatch.simps]]
  obtain l where l: "l \<in> set [''import'', ''export'']"
    and m: "(if startsWith s l then rmatch r (drop (length l) s) opens caps else None) = Some (caps', rest)"
    by blast
  then have sw: "startsWith s l" and m': "rmatch r (drop (length l) s) opens caps = Some (caps', rest)"
    by (auto split: if_splits)
  from l have six: "length l = 6" by auto
  from startsWith_length [OF sw] six have "6 \<le> length s" by simp
  moreover from rmatch_rest_le [OF m'] six have "length rest \<le> length s - 6" by simp
  ultimately show ?thesis by linarith
qed

section \<open>Errors\<close>

text \<open>
  What the scripts can throw: zod's validation error, the \<open>TypeError\<close> of iterating
  \<open>undefined\<close>, the \<open>SyntaxError\<close> of \<open>JSON.parse\<close>, and the errors of the file system.
\<close>

datatype error = ZodError | TypeError | SyntaxError | ENOENT | ENOTDIR | EISDIR | EEXIST

section \<open>JSON values and the zod schemas\<close>

datatype json =
    JNull
  | JBool bool
  | JNum int
  | JStr string
  | JArr "json list"
  | JObj "(string \<times> json) list"
  | JFunction

text \<open>
  The values a schema is given. An object is the list of its enumerable properties in
  order. A property whose value is \<open>undefined\<close> is a property that is absent:
  \<open>JSON.stringify\<close> writes neither. \<open>JFunction\<close> is a function, the one
  value the scripts can hand to a schema that is not JSON.
\<close>

datatype zod =
    ZString
  | ZEnum "string list"
  | ZArray zod
  | ZRecord zod zod
  | ZObject "(string \<times> zod) list"
  | ZOptional zod
  | ZDefault zod json

fun collect :: "(error + 'a) list \<Rightarrow> error + 'a list" where
  "collect [] = Inr []"
| "collect (Inl e # rs) = Inl e"
| "collect (Inr x # rs) = (case collect rs of Inl e \<Rightarrow> Inl e | Inr xs \<Rightarrow> Inr (x # xs))"

fun present :: "(string \<times> json option) list \<Rightarrow> (string \<times> json) list" where
  "present [] = []"
| "present ((k, None) # kvs) = present kvs"
| "present ((k, Some v) # kvs) = (k, v) # present kvs"

text \<open>
  \<open>schema.parse(input)\<close> of zod, for the schema constructors the repository uses. The
  input \<open>None\<close> is \<open>undefined\<close> (a key that is missing), and so is the output \<open>None\<close>.
  An object schema reads its own keys and strips the others; \<open>Inl ZodError\<close> is the
  exception \<open>parse\<close> throws.
\<close>

fun zparse :: "zod \<Rightarrow> json option \<Rightarrow> error + json option" where
  "zparse ZString j = (case j of Some (JStr s) \<Rightarrow> Inr (Some (JStr s)) | _ \<Rightarrow> Inl ZodError)"
| "zparse (ZEnum vs) j =
     (case j of
        Some (JStr s) \<Rightarrow> if s \<in> set vs then Inr (Some (JStr s)) else Inl ZodError
      | _ \<Rightarrow> Inl ZodError)"
| "zparse (ZArray z) j =
     (case j of
        Some (JArr xs) \<Rightarrow>
          (case collect (map (\<lambda>x. zparse z (Some x)) xs) of
             Inl e \<Rightarrow> Inl e
           | Inr ys \<Rightarrow> Inr (Some (JArr (map (\<lambda>y. case y of None \<Rightarrow> JNull | Some v \<Rightarrow> v) ys))))
      | _ \<Rightarrow> Inl ZodError)"
| "zparse (ZRecord zk zv) j =
     (case j of
        Some (JObj kvs) \<Rightarrow>
          (case collect (map (\<lambda>kv.
                   case zparse zk (Some (JStr (fst kv))) of
                     Inl e \<Rightarrow> Inl e
                   | Inr k' \<Rightarrow>
                       (case zparse zv (Some (snd kv)) of
                          Inl e \<Rightarrow> Inl e
                        | Inr v' \<Rightarrow> Inr (fst kv, v'))) kvs) of
             Inl e \<Rightarrow> Inl e
           | Inr out \<Rightarrow> Inr (Some (JObj (present out))))
      | _ \<Rightarrow> Inl ZodError)"
| "zparse (ZObject shape) j =
     (case j of
        Some (JObj kvs) \<Rightarrow>
          (case collect (map (\<lambda>field.
                   case zparse (snd field) (map_of kvs (fst field)) of
                     Inl e \<Rightarrow> Inl e
                   | Inr v' \<Rightarrow> Inr (fst field, v')) shape) of
             Inl e \<Rightarrow> Inl e
           | Inr out \<Rightarrow> Inr (Some (JObj (present out))))
      | _ \<Rightarrow> Inl ZodError)"
| "zparse (ZOptional z) j = (case j of None \<Rightarrow> Inr None | Some x \<Rightarrow> zparse z (Some x))"
| "zparse (ZDefault z d) j = (case j of None \<Rightarrow> zparse z (Some d) | Some x \<Rightarrow> zparse z (Some x))"

text \<open>\<open>schema.parse(input)\<close> called on a value: the result is a value.\<close>

definition parse :: "zod \<Rightarrow> json \<Rightarrow> error + json" where
  "parse z j =
     (case zparse z (Some j) of
        Inl e \<Rightarrow> Inl e
      | Inr None \<Rightarrow> Inl ZodError
      | Inr (Some v) \<Rightarrow> Inr v)"

text \<open>The schemas of \<open>schema.ts\<close>.\<close>

definition componentType :: zod where
  "componentType = ZEnum [''kitn:agent'', ''kitn:tool'', ''kitn:skill'', ''kitn:storage'']"

definition registryFileSchema :: zod where
  "registryFileSchema =
     ZObject [(''path'', ZString), (''content'', ZString), (''type'', componentType)]"

definition changelogEntrySchema :: zod where
  "changelogEntrySchema =
     ZObject [(''version'', ZString), (''date'', ZString),
              (''type'', ZEnum [''feature'', ''fix'', ''breaking'', ''initial'']),
              (''note'', ZString)]"

definition registryItemSchema :: zod where
  "registryItemSchema =
     ZObject
       [(''$schema'', ZOptional ZString),
        (''name'', ZString),
        (''type'', componentType),
        (''description'', ZString),
        (''dependencies'', ZOptional (ZArray ZString)),
        (''devDependencies'', ZOptional (ZArray ZString)),
        (''registryDependencies'', ZOptional (ZArray ZString)),
        (''envVars'', ZOptional (ZRecord ZString ZString)),
        (''files'', ZArray registryFileSchema),
        (''installDir'', ZOptional ZString),
        (''tsconfig'', ZOptional (ZRecord ZString (ZArray ZString))),
        (''docs'', ZOptional ZString),
        (''categories'', ZOptional (ZArray ZString)),
        (''version'', ZDefault (ZOptional ZString) (JStr ''1.0.0'')),
        (''updatedAt'', ZOptional ZString),
        (''changelog'', ZOptional (ZArray changelogEntrySchema))]"

definition installedComponentSchema :: zod where
  "installedComponentSchema =
     ZObject
       [(''registry'', ZOptional ZString),
        (''version'', ZString),
        (''installedAt'', ZString),
        (''files'', ZArray ZString),
        (''hash'', ZString)]"

text \<open>
  Modelled from the spec: \<open>lockSchema\<close>, which the schema tests import and the schema
  source does not define. The spec calls it the lock/installed-state structure, a
  mapping with no entries required; its tests parse objects from a component name to
  an installed-component entry. It is the record schema over
  \<open>installedComponentSchema\<close>, as the \<open>installed\<close> field of \<open>configSchema\<close> is.
\<close>

definition lockSchema :: zod where
  "lockSchema = ZRecord ZString installedComponentSchema"

section \<open>Manifests and registry items\<close>

datatype ComponentType = KitnAgent | KitnTool | KitnSkill | KitnStorage

fun typeName :: "ComponentType \<Rightarrow> string" where
  "typeName KitnAgent = ''kitn:agent''"
| "typeName KitnTool = ''kitn:tool''"
| "typeName KitnSkill = ''kitn:skill''"
| "typeName KitnStorage = ''kitn:storage''"

fun typeToDir :: "ComponentType \<Rightarrow> string" where
  "typeToDir KitnAgent = ''agents''"
| "typeToDir KitnTool = ''tools''"
| "typeToDir KitnSkill = ''skills''"
| "typeToDir KitnStorage = ''storage''"

datatype ChangeType = Feature | Fix | Breaking | Initial

fun changeTypeName :: "ChangeType \<Rightarrow> string" where
  "changeTypeName Feature = ''feature''"
| "changeTypeName Fix = ''fix''"
| "changeTypeName Breaking = ''breaking''"
| "changeTypeName Initial = ''initial''"

text \<open>A changelog entry \<open>{version, date, type, note}\<close>, its fields in this order.\<close>

datatype ChangelogEntry = ChangelogEntry string string ChangeType string

text \<open>
  \<open>ComponentManifest\<close> as \<open>build-registry.ts\<close> declares it; an optional field is an
  \<open>option\<close>. The validator reads \<open>name\<close>, \<open>type\<close>, \<open>files\<close> and
  \<open>registryDependencies\<close> of the same manifests. The scripts take what
  \<open>JSON.parse\<close> returns for a manifest of this interface, and so does the model.
\<close>

record ComponentManifest =
  name :: string
  type :: ComponentType
  description :: string
  dependencies :: "string list option"
  devDependencies :: "string list option"
  registryDependencies :: "string list option"
  envVars :: "(string \<times> string) list option"
  files :: "string list option"
  installDir :: "string option"
  tsconfig :: "(string \<times> string list) list option"
  docs :: "string option"
  categories :: "string list option"
  version :: "string option"
  changelog :: "ChangelogEntry list option"

text \<open>A property of an object literal: absent when its value is \<open>undefined\<close>.\<close>

definition property :: "string \<Rightarrow> ('a \<Rightarrow> json) \<Rightarrow> 'a option \<Rightarrow> (string \<times> json) list" where
  "property k f v = (case v of None \<Rightarrow> [] | Some x \<Rightarrow> [(k, f x)])"

definition strings :: "string list \<Rightarrow> json" where
  "strings xs = JArr (map JStr xs)"

fun changelogEntry :: "ChangelogEntry \<Rightarrow> json" where
  "changelogEntry (ChangelogEntry v d t n) =
     JObj [(''version'', JStr v), (''date'', JStr d), (''type'', JStr (changeTypeName t)),
           (''note'', JStr n)]"

text \<open>
  \<open>fileContents\<close> is a plain object, \<open>Record<string, string>\<close>: the map of its own
  properties. Reading \<open>obj[key]\<close> gives the own property, else what the object
  inherits from \<open>Object.prototype\<close> under that name, else \<open>undefined\<close>. The members
  of \<open>Object.prototype\<close> are functions, but for the accessor \<open>__proto__\<close>, which
  reads as the prototype itself, an object without enumerable properties.
\<close>

definition objectPrototype :: "string list" where
  "objectPrototype =
     [''constructor'', ''hasOwnProperty'', ''isPrototypeOf'', ''propertyIsEnumerable'',
      ''toLocaleString'', ''toString'', ''valueOf'', ''__defineGetter__'', ''__defineSetter__'',
      ''__lookupGetter__'', ''__lookupSetter__'', ''__proto__'']"

definition getProperty :: "(string \<rightharpoonup> string) \<Rightarrow> string \<Rightarrow> json option" where
  "getProperty obj key =
     (case obj key of
        Some text \<Rightarrow> Some (JStr text)
      | None \<Rightarrow>
          if key = ''__proto__'' then Some (JObj [])
          else if key \<in> set objectPrototype then Some JFunction
          else None)"

text \<open>
  Writing \<open>obj[key] = text\<close> makes an own property, but for the key \<open>__proto__\<close> on an
  object that has no such own property: the inherited setter takes the assignment and
  ignores a value that is a string.
\<close>

definition setProperty :: "(string \<rightharpoonup> string) \<Rightarrow> string \<Rightarrow> string \<Rightarrow> (string \<rightharpoonup> string)" where
  "setProperty obj key text =
     (if key = ''__proto__'' \<and> obj key = None then obj else obj(key \<mapsto> text))"

text \<open>
  \<open>buildRegistryItem(manifest, fileContents)\<close>; \<open>now\<close> is \<open>new Date().toISOString()\<close>.
  \<open>manifest.files!.map\<close> throws a \<open>TypeError\<close> when the manifest has no \<open>files\<close>.
  The content of a file is \<open>fileContents[fileName] ?? ""\<close>.
\<close>

definition registryFile :: "ComponentManifest \<Rightarrow> (string \<rightharpoonup> string) \<Rightarrow> string \<Rightarrow> json" where
  "registryFile manifest fileContents fileName =
     JObj [(''path'', JStr (typeToDir (type manifest) @ ''/'' @ fileName)),
           (''content'', (case getProperty fileContents fileName of None \<Rightarrow> JStr [] | Some v \<Rightarrow> v)),
           (''type'', JStr (typeName (type manifest)))]"

definition buildRegistryItem :: "string \<Rightarrow> ComponentManifest \<Rightarrow> (string \<rightharpoonup> string) \<Rightarrow> error + json" where
  "buildRegistryItem now manifest fileContents =
     (case files manifest of
        None \<Rightarrow> Inl TypeError
      | Some fileNames \<Rightarrow>
          parse registryItemSchema
            (JObj ([(''$schema'', JStr ''https://kitn.dev/schema/registry-item.json''),
                    (''name'', JStr (name manifest)),
                    (''type'', JStr (typeName (type manifest))),
                    (''description'', JStr (description manifest))]
                   @ property ''dependencies'' strings (dependencies manifest)
                   @ property ''devDependencies'' strings (devDependencies manifest)
                   @ property ''registryDependencies'' strings (registryDependencies manifest)
                   @ property ''envVars'' (\<lambda>kvs. JObj (map (\<lambda>kv. (fst kv, JStr (snd kv))) kvs)) (envVars manifest)
                   @ [(''files'', JArr (map (registryFile manifest fileContents) fileNames))]
                   @ property ''docs'' JStr (docs manifest)
                   @ property ''categories'' strings (categories manifest)
                   @ [(''version'', JStr (case version manifest of None \<Rightarrow> ''1.0.0'' | Some v \<Rightarrow> v))]
                   @ property ''installDir'' JStr (installDir manifest)
                   @ property ''tsconfig'' (\<lambda>kvs. JObj (map (\<lambda>kv. (fst kv, strings (snd kv))) kvs)) (tsconfig manifest)
                   @ [(''updatedAt'', JStr now)]
                   @ property ''changelog'' (\<lambda>es. JArr (map changelogEntry es)) (changelog manifest))))"

text \<open>
  \<open>buildRegistryIndex(items, existingVersions)\<close>: the items without their files, each
  with the versions known for its name, or with its own version alone.
\<close>

definition field :: "json \<Rightarrow> string \<Rightarrow> json option" where
  "field j k = (case j of JObj kvs \<Rightarrow> map_of kvs k | _ \<Rightarrow> None)"

definition indexItem :: "(string \<times> string list) list \<Rightarrow> json \<Rightarrow> json" where
  "indexItem existingVersions item =
     JObj (property ''name'' id (field item ''name'')
           @ property ''type'' id (field item ''type'')
           @ property ''description'' id (field item ''description'')
           @ property ''registryDependencies'' id (field item ''registryDependencies'')
           @ property ''categories'' id (field item ''categories'')
           @ property ''version'' id (field item ''version'')
           @ [(''versions'',
               (case (case field item ''name'' of Some (JStr n) \<Rightarrow> map_of existingVersions n | _ \<Rightarrow> None) of
                  Some vs \<Rightarrow> strings vs
                | None \<Rightarrow> JArr [case field item ''version'' of Some v \<Rightarrow> v | None \<Rightarrow> JStr ''1.0.0'']))]
           @ property ''updatedAt'' id (field item ''updatedAt''))"

definition buildRegistryIndex :: "json list \<Rightarrow> (string \<times> string list) list \<Rightarrow> json" where
  "buildRegistryIndex items existingVersions =
     JObj [(''$schema'', JStr ''https://kitn.dev/schema/registry.json''),
           (''version'', JStr ''1.0.0''),
           (''items'', JArr (map (indexItem existingVersions) items))]"

section \<open>The platform: file system, console, and what the scripts take from it\<close>

text \<open>
  An absolute, normalised path is the list of its segments: \<open>/a/b\<close> is \<open>[a, b]\<close>. A
  path that ends in a slash carries an empty last segment; no file has such a path.
  A file system holds the regular files with their contents and the directories with
  their entries, in the order \<open>readdir\<close> returns them.
\<close>

type_synonym path = "string list"

record filesystem =
  regular :: "path \<rightharpoonup> string"
  dirs :: "path \<rightharpoonup> string list"

text \<open>The lines the scripts print, by \<open>console.log\<close>, \<open>console.warn\<close> and \<open>console.error\<close>.\<close>

datatype line =
    Skipping path
    \<comment> \<open>\<open>Skipping <componentDir>: no manifest.json\<close>\<close>
  | Built string string
    \<comment> \<open>\<open>Built <typeDir>/<name>.json\<close>\<close>
  | Versioned string string string
    \<comment> \<open>\<open>+ <typeDir>/<name>@<version>.json (versioned)\<close>\<close>
  | RegistryIndex nat
    \<comment> \<open>\<open>Registry index: <n> components\<close>\<close>
  | ErrorAt string string
    \<comment> \<open>the head of a finding: \<open><componentName> -> <installedPath>\<close>\<close>
  | AliasNotInRegistry string string string
    \<comment> \<open>\<open>import "@kitn/<type>/<path>" resolves to "<target>" which is not in the registry\<close>\<close>
  | CrossTypeImport string
    \<comment> \<open>\<open>relative cross-type import "<importPath>" should use @kitn/ alias instead\<close>\<close>
  | HintUseAlias string string
    \<comment> \<open>\<open>hint: use "@kitn/<targetDir>/<file>" instead\<close>\<close>
  | NotInRegistry string string
    \<comment> \<open>\<open>import "<importPath>" resolves to "<target>" which is not in the registry\<close>\<close>
  | HintDidYouMean string string
    \<comment> \<open>\<open>hint: did you mean "<candidatePath>" from component "<candidateName>"?\<close>\<close>
  | HintNotADependency string
    \<comment> \<open>\<open>hint: "<candidateName>" is not in registryDependencies\<close>\<close>
  | EmptyLine
  | DependencyMissing string string
    \<comment> \<open>\<open><name>: registryDependency "<dep>" does not exist in the registry\<close>\<close>
  | Validated nat nat nat
    \<comment> \<open>\<open>Validated <n> files, <n> imports, <n> components\<close>\<close>
  | ErrorsFound nat
    \<comment> \<open>\<open><n> error(s) found\<close>\<close>
  | AllImportsResolve
    \<comment> \<open>\<open>All imports resolve correctly in the installed layout\<close>\<close>
  | Threw error
    \<comment> \<open>the exception that ended the run\<close>

record world =
  disk :: filesystem
  console :: "line list"

text \<open>
  What a run takes from the platform: the root of the repository (the directory above
  \<open>scripts\<close>), the working directory, \<open>JSON.parse\<close> on a manifest (\<open>None\<close> when it
  throws), \<open>JSON.stringify(x, null, 2) + "\n"\<close>, the time of the run as
  \<open>toISOString\<close> gives it, and \<open>a.localeCompare(b, undefined, {numeric: true})\<close>.
\<close>

record env =
  ROOT :: path
  cwd :: string
  JSON_parse :: "string \<Rightarrow> ComponentManifest option"
  JSON_stringify :: "json \<Rightarrow> string"
  toISOString :: string
  localeCompare :: "string \<Rightarrow> string \<Rightarrow> int"

text \<open>
  \<open>path.join(base, ...args)\<close> for an absolute \<open>base\<close>: the arguments that are not empty
  are joined by slashes and the whole is normalised; a trailing slash is kept.
\<close>

definition join :: "path \<Rightarrow> string list \<Rightarrow> path" where
  "join base args =
     (let joined = filter (\<lambda>a. a \<noteq> []) args;
          segs = normalizeSegments False (filter (\<lambda>seg. seg \<noteq> []) base)
                   (concat (map (splitOn CHR ''/'') joined))
      in if joined \<noteq> [] \<and> last (last joined) = CHR ''/'' \<and> segs \<noteq> [] then segs @ [[]] else segs)"

definition COMPONENTS_DIR :: "env \<Rightarrow> path" where
  "COMPONENTS_DIR env = join (ROOT env) [''components'']"

definition OUTPUT_DIR :: "env \<Rightarrow> path" where
  "OUTPUT_DIR env = join (ROOT env) [''r'']"

text \<open>
  A computation of a script: it reads and changes the world, and returns a value or
  throws.
\<close>

type_synonym 'a io = "world \<Rightarrow> (error + 'a) \<times> world"

definition returnIO :: "'a \<Rightarrow> 'a io" where
  "returnIO x w = (Inr x, w)"

definition throwIO :: "error \<Rightarrow> 'a io" where
  "throwIO e w = (Inl e, w)"

definition bindIO :: "'a io \<Rightarrow> ('a \<Rightarrow> 'b io) \<Rightarrow> 'b io" where
  "bindIO m f w = (case m w of (Inl e, w') \<Rightarrow> (Inl e, w') | (Inr x, w') \<Rightarrow> f x w')"

text \<open>\<open>try { x = await m } catch { h }\<close>.\<close>

definition tryIO :: "'a io \<Rightarrow> (error \<Rightarrow> 'a io) \<Rightarrow> 'a io" where
  "tryIO m h w = (case m w of (Inl e, w') \<Rightarrow> h e w' | (Inr x, w') \<Rightarrow> (Inr x, w'))"

text \<open>\<open>for (const x of xs) body\<close>, the variables the body assigns being \<open>st\<close>.\<close>

fun forEachIO :: "('a \<Rightarrow> 's \<Rightarrow> 's io) \<Rightarrow> 'a list \<Rightarrow> 's \<Rightarrow> 's io" where
  "forEachIO body [] st w = (Inr st, w)"
| "forEachIO body (x # xs) st w =
     (case body x st w of
        (Inl e, w') \<Rightarrow> (Inl e, w')
      | (Inr st', w') \<Rightarrow> forEachIO body xs st' w')"

definition print :: "line \<Rightarrow> unit io" where
  "print l w = (Inr (), w\<lparr>console := console w @ [l]\<rparr>)"

definition readdir :: "path \<Rightarrow> string list io" where
  "readdir p w =
     (case dirs (disk w) p of
        Some entries \<Rightarrow> (Inr entries, w)
      | None \<Rightarrow> (Inl (if regular (disk w) p = None then ENOENT else ENOTDIR), w))"

definition readFile :: "path \<Rightarrow> string io" where
  "readFile p w =
     (case regular (disk w) p of
        Some content \<Rightarrow> (Inr content, w)
      | None \<Rightarrow> (Inl (if dirs (disk w) p = None then ENOENT else EISDIR), w))"

definition access :: "path \<Rightarrow> unit io" where
  "access p w =
     (if regular (disk w) p = None \<and> dirs (disk w) p = None then (Inl ENOENT, w) else (Inr (), w))"

text \<open>
  \<open>writeFile\<close> creates or replaces a regular file in a directory that exists, and
  enters a new name into the directory.
\<close>

definition writeFile :: "path \<Rightarrow> string \<Rightarrow> unit io" where
  "writeFile p content w =
     (if p = [] \<or> dirs (disk w) p \<noteq> None then (Inl EISDIR, w)
      else if last p = [] then (Inl ENOENT, w)
      else
        (case dirs (disk w) (butlast p) of
           None \<Rightarrow> (Inl ENOENT, w)
         | Some entries \<Rightarrow>
             (Inr (),
              w\<lparr>disk := (disk w)
                 \<lparr>regular := (regular (disk w))(p \<mapsto> content),
                  dirs := (dirs (disk w))
                    (butlast p \<mapsto> (if last p \<in> set entries then entries else entries @ [last p]))\<rparr>\<rparr>)))"

text \<open>
  \<open>mkdir(p, {recursive: true})\<close>: the directories of \<open>p\<close> that are missing, from the
  top. A regular file at \<open>p\<close> is \<open>EEXIST\<close>, a regular file above \<open>p\<close> is \<open>ENOTDIR\<close>.
\<close>

fun mkdirFrom :: "path \<Rightarrow> string list \<Rightarrow> unit io" where
  "mkdirFrom base [] w = (Inr (), w)"
| "mkdirFrom base (seg # segs) w =
     (if regular (disk w) (base @ [seg]) \<noteq> None then (Inl (if segs = [] then EEXIST else ENOTDIR), w)
      else if dirs (disk w) (base @ [seg]) \<noteq> None then mkdirFrom (base @ [seg]) segs w
      else mkdirFrom (base @ [seg]) segs
             (w\<lparr>disk := (disk w)
                \<lparr>dirs := (dirs (disk w))
                   (base \<mapsto> (case dirs (disk w) base of None \<Rightarrow> [seg] | Some entries \<Rightarrow> entries @ [seg]),
                    base @ [seg] \<mapsto> [])\<rparr>\<rparr>))"

definition mkdir :: "path \<Rightarrow> unit io" where
  "mkdir p = mkdirFrom [] p"

section \<open>The build script\<close>

text \<open>
  The pattern \<open>^<name>@(.+)\.json$\<close>, the name with its special characters escaped: it
  stands for itself.
\<close>

definition versionPattern :: "string \<Rightarrow> rx list" where
  "versionPattern n =
     [Lit (n @ ''@''), GroupOpen, Plus NotNewline, GroupClose, Lit ''.json'', EndOfInput]"

text \<open>
  \<open>xs.sort(compare)\<close>: the sort is stable. It is modelled as insertion sort; for a
  comparator that is a total preorder every stable sort returns the same list.
\<close>

fun insertBy :: "('a \<Rightarrow> 'a \<Rightarrow> int) \<Rightarrow> 'a \<Rightarrow> 'a list \<Rightarrow> 'a list" where
  "insertBy compare x [] = [x]"
| "insertBy compare x (y # ys) =
     (if compare x y \<le> 0 then x # y # ys else y # insertBy compare x ys)"

definition sortBy :: "('a \<Rightarrow> 'a \<Rightarrow> int) \<Rightarrow> 'a list \<Rightarrow> 'a list" where
  "sortBy compare xs = foldr (insertBy compare) xs []"

text \<open>The versions of a component, from the entries of its output directory.\<close>

definition matchVersion :: "string \<Rightarrow> string \<Rightarrow> string option" where
  "matchVersion n f =
     (case rmatch (versionPattern n) f [] [] of
        Some (caps, rest) \<Rightarrow> (case caps of [] \<Rightarrow> None | m1 # ms \<Rightarrow> Some m1)
      | None \<Rightarrow> None)"

definition collectVersions :: "(string \<Rightarrow> string \<Rightarrow> int) \<Rightarrow> string \<Rightarrow> string list \<Rightarrow> string list" where
  "collectVersions compareNumeric n dirEntries =
     sortBy (\<lambda>a b. compareNumeric b a) (List.map_filter (matchVersion n) dirEntries)"

record built =
  allItems :: "json list"
  existingVersions :: "(string \<times> string list) list"

definition readSource :: "path \<Rightarrow> string \<Rightarrow> (string \<rightharpoonup> string) \<Rightarrow> (string \<rightharpoonup> string) io" where
  "readSource componentDir fileName fileContents =
     bindIO (readFile (join componentDir [fileName]))
       (\<lambda>content. returnIO (setProperty fileContents fileName content))"

text \<open>The versioned file is written only when \<open>access\<close> throws.\<close>

definition writeVersioned :: "string \<Rightarrow> string \<Rightarrow> string \<Rightarrow> path \<Rightarrow> string \<Rightarrow> unit io" where
  "writeVersioned typeDir n v versionedPath content =
     tryIO (access versionedPath)
       (\<lambda>e. bindIO (writeFile versionedPath content) (\<lambda>u. print (Versioned typeDir n v)))"

definition writeItem :: "env \<Rightarrow> string \<Rightarrow> ComponentManifest \<Rightarrow> json \<Rightarrow> built \<Rightarrow> built io" where
  "writeItem env typeDir manifest item st =
     (let outDir = join (OUTPUT_DIR env) [typeDir];
          v = (case version manifest of None \<Rightarrow> ''1.0.0'' | Some v \<Rightarrow> v);
          versionedPath = join outDir [name manifest @ ''@'' @ v @ ''.json'']
      in bindIO (mkdir outDir) (\<lambda>u.
         bindIO (writeFile (join outDir [name manifest @ ''.json'']) (JSON_stringify env item)) (\<lambda>u.
         bindIO (print (Built typeDir (name manifest))) (\<lambda>u.
         bindIO (writeVersioned typeDir (name manifest) v versionedPath (JSON_stringify env item)) (\<lambda>u.
         bindIO (readdir outDir) (\<lambda>dirEntries.
         returnIO (st\<lparr>existingVersions :=
           AList.update (name manifest) (collectVersions (localeCompare env) (name manifest) dirEntries)
             (existingVersions st)\<rparr>)))))))"

definition readManifest :: "path \<Rightarrow> string option io" where
  "readManifest componentDir =
     tryIO (bindIO (readFile (join componentDir [''manifest.json''])) (\<lambda>raw. returnIO (Some raw)))
           (\<lambda>e. bindIO (print (Skipping componentDir)) (\<lambda>u. returnIO None))"

definition buildComponent :: "env \<Rightarrow> string \<Rightarrow> path \<Rightarrow> string \<Rightarrow> built \<Rightarrow> built io" where
  "buildComponent env typeDir dir entry st =
     (let componentDir = join dir [entry] in
      bindIO (readManifest componentDir) (\<lambda>manifestRaw.
        case manifestRaw of
          None \<Rightarrow> returnIO st
        | Some raw \<Rightarrow>
            (case JSON_parse env raw of
               None \<Rightarrow> throwIO SyntaxError
             | Some manifest \<Rightarrow>
                 (case files manifest of
                    None \<Rightarrow> throwIO TypeError
                  | Some fileNames \<Rightarrow>
                      bindIO (forEachIO (readSource componentDir) fileNames Map.empty) (\<lambda>fileContents.
                        case buildRegistryItem (toISOString env) manifest fileContents of
                          Inl e \<Rightarrow> throwIO e
                        | Inr item \<Rightarrow>
                            writeItem env typeDir manifest item
                              (st\<lparr>allItems := allItems st @ [item]\<rparr>))))))"

definition buildType :: "env \<Rightarrow> string \<Rightarrow> built \<Rightarrow> built io" where
  "buildType env typeDir st =
     (let dir = join (COMPONENTS_DIR env) [typeDir] in
      bindIO (tryIO (bindIO (readdir dir) (\<lambda>entries. returnIO (Some entries))) (\<lambda>e. returnIO None))
        (\<lambda>entries.
           case entries of
             None \<Rightarrow> returnIO st
           | Some es \<Rightarrow> forEachIO (buildComponent env typeDir dir) es st))"

definition typeDirs :: "string list" where
  "typeDirs = [''agents'', ''tools'', ''skills'', ''storage'']"

definition build :: "env \<Rightarrow> unit io" where
  "build env =
     bindIO (forEachIO (buildType env) typeDirs \<lparr>allItems = [], existingVersions = []\<rparr>) (\<lambda>st.
     bindIO (writeFile (join (OUTPUT_DIR env) [''registry.json''])
               (JSON_stringify env (buildRegistryIndex (allItems st) (existingVersions st)))) (\<lambda>u.
     print (RegistryIndex (length (allItems st)))))"

text \<open>
  A run of the script: the process starts with nothing printed; an exception that
  nothing catches is printed and the exit status is 1.
\<close>

definition runBuild :: "env \<Rightarrow> filesystem \<Rightarrow> nat \<times> world" where
  "runBuild env d =
     (case build env \<lparr>disk = d, console = []\<rparr> of
        (Inl e, w) \<Rightarrow> (1, w\<lparr>console := console w @ [Threw e]\<rparr>)
      | (Inr u, w) \<Rightarrow> (0, w))"

section \<open>The validator\<close>

definition knownAliasTypes :: "string list" where
  "knownAliasTypes = map typeToDir [KitnAgent, KitnTool, KitnSkill, KitnStorage]"

text \<open>
  The loop \<open>while ((match = pattern.exec(source)) !== null)\<close> of a global pattern: the
  leftmost match from the last index on, then on from the end of that match. A match
  of either pattern takes at least its keyword, so the loop ends. \<open>match[1]\<close> and
  \<open>match[2]\<close> are the captures.
\<close>

function extractRelativeImports :: "string \<Rightarrow> string list" where
  "extractRelativeImports source =
     (case rmatch relativePattern source [] [] of
        Some (caps, rest) \<Rightarrow>
          (case caps of [m1] \<Rightarrow> [m1] | _ \<Rightarrow> []) @ extractRelativeImports rest
      | None \<Rightarrow> (case source of [] \<Rightarrow> [] | c # cs \<Rightarrow> extractRelativeImports cs))"
  by pat_completeness auto
termination
  by (relation "measure length") (auto simp del: rmatch.simps simp: relativePattern_def dest: rmatch_keyword_rest_less)

declare extractRelativeImports.simps [simp del]

function extractKitnAliasImports :: "string \<Rightarrow> (string \<times> string) list" where
  "extractKitnAliasImports source =
     (case rmatch aliasPattern source [] [] of
        Some (caps, rest) \<Rightarrow>
          (case caps of
             [m1, m2] \<Rightarrow> if m1 \<in> set knownAliasTypes then [(m1, m2)] else []
           | _ \<Rightarrow> [])
          @ extractKitnAliasImports rest
      | None \<Rightarrow> (case source of [] \<Rightarrow> [] | c # cs \<Rightarrow> extractKitnAliasImports cs))"
  by pat_completeness auto
termination
  by (relation "measure length") (auto simp del: rmatch.simps simp: aliasPattern_def dest: rmatch_keyword_rest_less)

declare extractKitnAliasImports.simps [simp del]

definition jsToTs :: "string \<Rightarrow> string" where
  "jsToTs resolved = (if endsWith resolved ''.js'' then take (length resolved - 3) resolved @ ''.ts'' else resolved)"

definition resolveImportToFile :: "env \<Rightarrow> string \<Rightarrow> string \<Rightarrow> string" where
  "resolveImportToFile env importPath fromFileInstalledPath =
     (let fromDir = dirname fromFileInstalledPath;
          resolved = resolve (cwd env) [''/'', fromDir, importPath]
      in jsToTs (drop 1 resolved))"

text \<open>
  The three maps of phase 1, each in the order of its insertions: \<open>Map.set\<close> on a key that
  is there replaces the value in place.
\<close>

record layout =
  installedFiles :: "(string \<times> string) list"
  manifests :: "(string \<times> ComponentManifest) list"
  fileContents :: "(string \<times> string) list"

definition loadFile :: "path \<Rightarrow> string \<Rightarrow> ComponentManifest \<Rightarrow> string \<Rightarrow> layout \<Rightarrow> layout io" where
  "loadFile dir entry manifest fileName lay =
     (let installedPath = typeToDir (type manifest) @ ''/'' @ fileName;
          lay1 = lay\<lparr>installedFiles := AList.update installedPath (name manifest) (installedFiles lay)\<rparr>
      in bindIO (readFile (join dir [entry, fileName])) (\<lambda>source.
           returnIO (lay1\<lparr>fileContents := AList.update installedPath source (fileContents lay1)\<rparr>)))"

definition loadComponent :: "env \<Rightarrow> path \<Rightarrow> string \<Rightarrow> layout \<Rightarrow> layout io" where
  "loadComponent env dir entry lay =
     bindIO (tryIO (bindIO (readFile (join dir [entry, ''manifest.json''])) (\<lambda>raw. returnIO (Some raw)))
                   (\<lambda>e. returnIO None))
       (\<lambda>manifestRaw.
          case manifestRaw of
            None \<Rightarrow> returnIO lay
          | Some raw \<Rightarrow>
              (case JSON_parse env raw of
                 None \<Rightarrow> throwIO SyntaxError
               | Some manifest \<Rightarrow>
                   (case files manifest of
                      None \<Rightarrow> throwIO TypeError
                    | Some fileNames \<Rightarrow>
                        forEachIO (loadFile dir entry manifest) fileNames
                          (lay\<lparr>manifests := AList.update (name manifest) manifest (manifests lay)\<rparr>))))"

definition loadType :: "env \<Rightarrow> string \<Rightarrow> layout \<Rightarrow> layout io" where
  "loadType env typeDir lay =
     (let dir = join (COMPONENTS_DIR env) [typeDir] in
      bindIO (tryIO (bindIO (readdir dir) (\<lambda>entries. returnIO (Some entries))) (\<lambda>e. returnIO None))
        (\<lambda>entries.
           case entries of
             None \<Rightarrow> returnIO lay
           | Some es \<Rightarrow> forEachIO (loadComponent env dir) es lay))"

definition loadLayout :: "env \<Rightarrow> layout io" where
  "loadLayout env =
     forEachIO (loadType env) typeDirs \<lparr>installedFiles = [], manifests = [], fileContents = []\<rparr>"

text \<open>
  Phase 2 and 3 touch no file: they count and print. \<open>thrown\<close> holds the exception
  that stopped them, if one did.
\<close>

record report =
  errors :: nat
  filesChecked :: nat
  importsChecked :: nat
  out :: "line list"
  thrown :: "error option"

fun forEachR :: "('a \<Rightarrow> report \<Rightarrow> report) \<Rightarrow> 'a list \<Rightarrow> report \<Rightarrow> report" where
  "forEachR body [] st = st"
| "forEachR body (x # xs) st = (if thrown st = None then forEachR body xs (body x st) else st)"

definition checkAliasImport :: "layout \<Rightarrow> string \<Rightarrow> string \<Rightarrow> string \<times> string \<Rightarrow> report \<Rightarrow> report" where
  "checkAliasImport lay componentName installedPath imported st =
     (let resolvedTarget = jsToTs (fst imported @ ''/'' @ snd imported);
          st1 = st\<lparr>importsChecked := importsChecked st + 1\<rparr>
      in if map_of (installedFiles lay) resolvedTarget = None
         then st1\<lparr>errors := errors st1 + 1,
                  out := out st1 @ [ErrorAt componentName installedPath,
                                    AliasNotInRegistry (fst imported) (snd imported) resolvedTarget,
                                    EmptyLine]\<rparr>
         else st1)"

text \<open>
  One candidate of the suggestion. \<open>manifests.get(componentName)!\<close> is \<open>undefined\<close> for a
  name that is no key, and reading its \<open>registryDependencies\<close> throws.
\<close>

definition suggest :: "layout \<Rightarrow> string \<Rightarrow> string \<times> string \<Rightarrow> report \<Rightarrow> report" where
  "suggest lay componentName candidate st =
     (let st1 = st\<lparr>out := out st @ [HintDidYouMean (fst candidate) (snd candidate)]\<rparr>
      in case map_of (manifests lay) componentName of
           None \<Rightarrow> st1\<lparr>thrown := Some TypeError\<rparr>
         | Some manifest \<Rightarrow>
             (let deps = (case registryDependencies manifest of None \<Rightarrow> [] | Some ds \<Rightarrow> ds)
              in if snd candidate \<notin> set deps
                 then st1\<lparr>out := out st1 @ [HintNotADependency (snd candidate)]\<rparr>
                 else st1))"

definition checkRelativeImport :: "env \<Rightarrow> layout \<Rightarrow> string \<Rightarrow> string \<Rightarrow> string \<Rightarrow> report \<Rightarrow> report" where
  "checkRelativeImport env lay componentName installedPath importPath st =
     (let fromDir = dirname installedPath;
          st1 = st\<lparr>importsChecked := importsChecked st + 1\<rparr>;
          resolvedTarget = resolveImportToFile env importPath installedPath;
          targetDir = dirname resolvedTarget;
          fileName = last (splitOn CHR ''/'' resolvedTarget)
      in if targetDir \<noteq> fromDir \<and> targetDir \<in> set knownAliasTypes
         then st1\<lparr>errors := errors st1 + 1,
                  out := out st1 @ [ErrorAt componentName installedPath,
                                    CrossTypeImport importPath,
                                    HintUseAlias targetDir (replaceFirst ''.ts'' ''.js'' fileName),
                                    EmptyLine]\<rparr>
         else if map_of (installedFiles lay) resolvedTarget = None
         then (let st2 = st1\<lparr>errors := errors st1 + 1,
                            out := out st1 @ [ErrorAt componentName installedPath,
                                              NotInRegistry importPath resolvedTarget]\<rparr>;
                   st3 = forEachR (suggest lay componentName)
                           (filter (\<lambda>candidate. endsWith (fst candidate) fileName) (installedFiles lay)) st2
               in if thrown st3 = None then st3\<lparr>out := out st3 @ [EmptyLine]\<rparr> else st3)
         else st1)"

definition checkFile :: "env \<Rightarrow> layout \<Rightarrow> string \<times> string \<Rightarrow> report \<Rightarrow> report" where
  "checkFile env lay installed st =
     (if extname (fst installed) \<noteq> ''.ts'' then st
      else
        (let source = (case map_of (fileContents lay) (fst installed) of
                         Some text \<Rightarrow> text
                       | None \<Rightarrow> ''undefined'');
             st1 = st\<lparr>filesChecked := filesChecked st + 1\<rparr>;
             st2 = forEachR (checkAliasImport lay (snd installed) (fst installed))
                     (extractKitnAliasImports source) st1
         in forEachR (checkRelativeImport env lay (snd installed) (fst installed))
              (extractRelativeImports source) st2))"

definition checkDependency :: "layout \<Rightarrow> string \<Rightarrow> string \<Rightarrow> report \<Rightarrow> report" where
  "checkDependency lay n dep st =
     (if map_of (manifests lay) dep = None
      then st\<lparr>errors := errors st + 1, out := out st @ [DependencyMissing n dep]\<rparr>
      else st)"

definition checkDependencies :: "layout \<Rightarrow> string \<times> ComponentManifest \<Rightarrow> report \<Rightarrow> report" where
  "checkDependencies lay entry st =
     forEachR (checkDependency lay (fst entry))
       (case registryDependencies (snd entry) of None \<Rightarrow> [] | Some ds \<Rightarrow> ds) st"

definition validate :: "env \<Rightarrow> layout \<Rightarrow> report" where
  "validate env lay =
     forEachR (checkDependencies lay) (manifests lay)
       (forEachR (checkFile env lay) (installedFiles lay)
          \<lparr>errors = 0, filesChecked = 0, importsChecked = 0, out = [], thrown = None\<rparr>)"

text \<open>
  \<open>main\<close> with its handler \<open>main().catch(...)\<close>: the exit status and the world the
  process leaves. An exception is printed and the status is 1; so it is when
  \<open>errors > 0\<close>; otherwise the process ends with status 0.
\<close>

definition main :: "env \<Rightarrow> world \<Rightarrow> nat \<times> world" where
  "main env w =
     (case loadLayout env w of
        (Inl e, w1) \<Rightarrow> (1, w1\<lparr>console := console w1 @ [Threw e]\<rparr>)
      | (Inr lay, w1) \<Rightarrow>
          (let st = validate env lay in
           case thrown st of
             Some e \<Rightarrow> (1, w1\<lparr>console := console w1 @ out st @ [Threw e]\<rparr>)
           | None \<Rightarrow>
               (if errors st > 0
                then (1, w1\<lparr>console := console w1 @ out st
                            @ [Validated (filesChecked st) (importsChecked st) (length (manifests lay)),
                               ErrorsFound (errors st)]\<rparr>)
                else (0, w1\<lparr>console := console w1 @ out st
                            @ [Validated (filesChecked st) (importsChecked st) (length (manifests lay)),
                               AllImportsResolve]\<rparr>))))"

definition runValidate :: "env \<Rightarrow> filesystem \<Rightarrow> nat \<times> world" where
  "runValidate env d = main env \<lparr>disk = d, console = []\<rparr>"

section \<open>Schema validation of what the build assembles\<close>

lemma collect_map_Inr: "collect (map (\<lambda>x. Inr (f x)) xs) = Inr (map f xs)"
  by (induction xs) simp_all

lemma zparse_strings: "zparse (ZArray ZString) (Some (strings xs)) = Inr (Some (strings xs))"
  by (simp add: strings_def collect_map_Inr comp_def)

lemma present_map_Some: "present (map (\<lambda>kv. (fst kv, Some (g kv))) kvs) = map (\<lambda>kv. (fst kv, g kv)) kvs"
  by (induction kvs) auto

lemma zparse_envVars:
  "zparse (ZRecord ZString ZString) (Some (JObj (map (\<lambda>kv. (fst kv, JStr (snd kv))) kvs)))
     = Inr (Some (JObj (map (\<lambda>kv. (fst kv, JStr (snd kv))) kvs)))"
  by (simp add: comp_def collect_map_Inr present_map_Some)

lemma zparse_tsconfig:
  "zparse (ZRecord ZString (ZArray ZString)) (Some (JObj (map (\<lambda>kv. (fst kv, strings (snd kv))) kvs)))
     = Inr (Some (JObj (map (\<lambda>kv. (fst kv, strings (snd kv))) kvs)))"
  by (simp add: comp_def collect_map_Inr present_map_Some zparse_strings del: zparse.simps(3))

lemma zparse_optional:
  "(\<And>x. zparse z (Some (f x)) = Inr (Some (f x))) \<Longrightarrow>
   zparse (ZOptional z) (map_option f v) = Inr (map_option f v)"
  by (cases v) simp_all

lemma typeName_componentType: "zparse componentType (Some (JStr (typeName t))) = Inr (Some (JStr (typeName t)))"
  by (cases t) (simp_all add: componentType_def)

text \<open>
  A file name reads as a string or as \<open>undefined\<close> in \<open>fileContents\<close> when it is an own
  property or no member of \<open>Object.prototype\<close>.
\<close>

lemma getProperty_own: "fc f = Some c \<Longrightarrow> getProperty fc f = Some (JStr c)"
  by (simp add: getProperty_def)

lemma getProperty_undefined:
  assumes "fc f = None" and "f \<notin> set objectPrototype"
  shows "getProperty fc f = None"
proof -
  from assms(2) have "f \<noteq> ''__proto__''" by (auto simp: objectPrototype_def)
  with assms show ?thesis by (simp add: getProperty_def)
qed

lemma getProperty_inherited:
  assumes "fc f = None" and "f \<in> set objectPrototype"
  shows "getProperty fc f = Some (JObj []) \<or> getProperty fc f = Some JFunction"
  using assms by (simp add: getProperty_def)

lemma zparse_registryFile:
  assumes "fc f = None \<longrightarrow> f \<notin> set objectPrototype"
  shows "zparse registryFileSchema (Some (registryFile m fc f)) = Inr (Some (registryFile m fc f))"
proof (cases "fc f")
  case None
  with assms have "getProperty fc f = None" by (simp add: getProperty_undefined)
  then show ?thesis
    by (simp add: registryFileSchema_def registryFile_def typeName_componentType)
next
  case (Some c)
  then have "getProperty fc f = Some (JStr c)" by (rule getProperty_own)
  then show ?thesis
    by (simp add: registryFileSchema_def registryFile_def typeName_componentType)
qed

lemma zparse_changelogEntry:
  "zparse changelogEntrySchema (Some (changelogEntry e)) = Inr (Some (changelogEntry e))"
proof (cases e)
  case (ChangelogEntry v d t n)
  then show ?thesis by (cases t) (simp_all add: changelogEntrySchema_def)
qed

lemma zparse_array:
  "(\<And>x. zparse z (Some (f x)) = Inr (Some (f x))) \<Longrightarrow>
   zparse (ZArray z) (Some (JArr (map f xs))) = Inr (Some (JArr (map f xs)))"
  by (simp add: comp_def collect_map_Inr)

lemma map_of_property_other:
  "k' \<noteq> k \<Longrightarrow> map_of (property k f v @ rest) k' = map_of rest k'"
  by (cases v) (simp_all add: property_def)

lemma map_of_property:
  "map_of rest k = None \<Longrightarrow> map_of (property k f v @ rest) k = map_option f v"
  by (cases v) (simp_all add: property_def)

lemma map_of_property_last:
  "map_of (property k f v) k' = (if k' = k then map_option f v else None)"
  by (cases v) (simp_all add: property_def)

lemma present_property: "present ((k, map_option f v) # rest) = property k f v @ present rest"
  by (cases v) (simp_all add: property_def)

lemma zparse_opt_strings:
  "zparse (ZOptional (ZArray ZString)) (map_option strings v) = Inr (map_option strings v)"
  by (rule zparse_optional) (rule zparse_strings)

lemma zparse_opt_string:
  "zparse (ZOptional ZString) (map_option JStr v) = Inr (map_option JStr v)"
  by (rule zparse_optional) simp

lemma zparse_opt_envVars:
  "zparse (ZOptional (ZRecord ZString ZString))
      (map_option (\<lambda>kvs. JObj (map (\<lambda>kv. (fst kv, JStr (snd kv))) kvs)) v)
     = Inr (map_option (\<lambda>kvs. JObj (map (\<lambda>kv. (fst kv, JStr (snd kv))) kvs)) v)"
  by (rule zparse_optional) (rule zparse_envVars)

lemma zparse_opt_tsconfig:
  "zparse (ZOptional (ZRecord ZString (ZArray ZString)))
      (map_option (\<lambda>kvs. JObj (map (\<lambda>kv. (fst kv, strings (snd kv))) kvs)) v)
     = Inr (map_option (\<lambda>kvs. JObj (map (\<lambda>kv. (fst kv, strings (snd kv))) kvs)) v)"
  by (rule zparse_optional) (rule zparse_tsconfig)

lemma zparse_opt_changelog:
  "zparse (ZOptional (ZArray changelogEntrySchema)) (map_option (\<lambda>es. JArr (map changelogEntry es)) v)
     = Inr (map_option (\<lambda>es. JArr (map changelogEntry es)) v)"
  by (rule zparse_optional) (rule zparse_array, rule zparse_changelogEntry)

lemma zparse_array_on:
  assumes "\<And>x. x \<in> set xs \<Longrightarrow> zparse z (Some (f x)) = Inr (Some (f x))"
  shows "zparse (ZArray z) (Some (JArr (map f xs))) = Inr (Some (JArr (map f xs)))"
proof -
  from assms have "collect (map (\<lambda>x. zparse z (Some (f x))) xs) = Inr (map (\<lambda>x. Some (f x)) xs)"
    by (induction xs) simp_all
  then show ?thesis by (simp add: comp_def)
qed

lemma zparse_files:
  assumes "\<forall>f \<in> set fs. fc f = None \<longrightarrow> f \<notin> set objectPrototype"
  shows "zparse (ZArray registryFileSchema) (Some (JArr (map (registryFile m fc) fs)))
     = Inr (Some (JArr (map (registryFile m fc) fs)))"
proof (rule zparse_array_on)
  fix f assume "f \<in> set fs"
  with assms have "fc f = None \<longrightarrow> f \<notin> set objectPrototype" by blast
  then show "zparse registryFileSchema (Some (registryFile m fc f)) = Inr (Some (registryFile m fc f))"
    by (rule zparse_registryFile)
qed

lemma zparse_optional_Some: "zparse (ZOptional z) (Some x) = zparse z (Some x)"
  by simp

lemma buildRegistryItem_result:
  assumes "files m = Some fs"
    and "\<forall>f \<in> set fs. fc f = None \<longrightarrow> f \<notin> set objectPrototype"
  shows "buildRegistryItem now m fc =
     Inr (JObj ([(''$schema'', JStr ''https://kitn.dev/schema/registry-item.json''),
                 (''name'', JStr (name m)),
                 (''type'', JStr (typeName (type m))),
                 (''description'', JStr (description m))]
                @ property ''dependencies'' strings (dependencies m)
                @ property ''devDependencies'' strings (devDependencies m)
                @ property ''registryDependencies'' strings (registryDependencies m)
                @ property ''envVars'' (\<lambda>kvs. JObj (map (\<lambda>kv. (fst kv, JStr (snd kv))) kvs)) (envVars m)
                @ [(''files'', JArr (map (registryFile m fc) fs))]
                @ property ''installDir'' JStr (installDir m)
                @ property ''tsconfig'' (\<lambda>kvs. JObj (map (\<lambda>kv. (fst kv, strings (snd kv))) kvs)) (tsconfig m)
                @ property ''docs'' JStr (docs m)
                @ property ''categories'' strings (categories m)
                @ [(''version'', JStr (case version m of None \<Rightarrow> ''1.0.0'' | Some v \<Rightarrow> v)),
                   (''updatedAt'', JStr now)]
                @ property ''changelog'' (\<lambda>es. JArr (map changelogEntry es)) (changelog m)))"
  using assms(1)
  by (simp add: buildRegistryItem_def parse_def registryItemSchema_def
        zparse_optional_Some
        map_of_property map_of_property_other map_of_property_last present_property
        zparse_opt_strings zparse_opt_string zparse_opt_envVars zparse_opt_tsconfig
        zparse_opt_changelog zparse_files [OF assms(2)] typeName_componentType
        del: zparse.simps(3) zparse.simps(4) zparse.simps(6) map_of_append)

section \<open>Registry items\<close>

lemma buildRegistryItem_files:
  assumes "files m = Some fs"
    and "\<forall>f \<in> set fs. fc f = None \<longrightarrow> f \<notin> set objectPrototype"
  shows "\<exists>item. buildRegistryItem now m fc = Inr item
           \<and> field item ''files'' = Some (JArr (map (registryFile m fc) fs))"
  by (simp add: buildRegistryItem_result [OF assms] field_def map_of_property_other
        map_of_property_last del: map_of_append)

text \<open>Two manifests for the instances below; \<open>echoManifest\<close> is a tool with two files.\<close>

definition echoManifest :: ComponentManifest where
  "echoManifest =
     \<lparr>name = ''echo'', type = KitnTool, description = ''Echoes the input'',
      dependencies = Some [''ai'', ''zod''], devDependencies = None, registryDependencies = None,
      envVars = None, files = Some [''echo.ts'', ''README.md''], installDir = None, tsconfig = None,
      docs = None, categories = None, version = Some ''0.1.0'', changelog = None\<rparr>"

definition manifestOf :: "string \<Rightarrow> ComponentType \<Rightarrow> string list \<Rightarrow> string \<Rightarrow> ComponentManifest" where
  "manifestOf n t fileNames v =
     \<lparr>name = n, type = t, description = ''A component'',
      dependencies = None, devDependencies = None, registryDependencies = None,
      envVars = None, files = Some fileNames, installDir = None, tsconfig = None,
      docs = None, categories = None, version = Some v, changelog = None\<rparr>"

text \<open>
  C5: for a manifest with a files list and a \<open>fileContents\<close> that holds every declared
  file, \<open>buildRegistryItem\<close> returns an item whose \<open>files\<close> array is as long as the
  manifest's list, and the path of its i-th entry is the directory of the manifest's
  type (\<open>agents\<close> for an agent, \<open>tools\<close> for a tool, \<open>skills\<close> for a skill, \<open>storage\<close>
  for a storage), a slash, and the i-th declared path. The list may be empty.
\<close>

theorem buildRegistryItem_installed_paths:
  assumes "files m = Some fs"
    and "set fs \<subseteq> dom fc"
  shows "\<exists>item fl. buildRegistryItem now m fc = Inr item
           \<and> field item ''files'' = Some (JArr fl)
           \<and> length fl = length fs
           \<and> (\<forall>i < length fs.
                 field (fl ! i) ''path''
                   = Some (JStr ((case type m of
                                    KitnAgent \<Rightarrow> ''agents''
                                  | KitnTool \<Rightarrow> ''tools''
                                  | KitnSkill \<Rightarrow> ''skills''
                                  | KitnStorage \<Rightarrow> ''storage'') @ ''/'' @ fs ! i)))"
proof -
  from assms(2) have "\<forall>f \<in> set fs. fc f = None \<longrightarrow> f \<notin> set objectPrototype"
    by auto
  from buildRegistryItem_files [OF assms(1) this, of now]
  obtain item where "buildRegistryItem now m fc = Inr item"
    and "field item ''files'' = Some (JArr (map (registryFile m fc) fs))"
    by blast
  moreover have "\<forall>i < length fs. field (map (registryFile m fc) fs ! i) ''path''
      = Some (JStr ((case type m of
                       KitnAgent \<Rightarrow> ''agents''
                     | KitnTool \<Rightarrow> ''tools''
                     | KitnSkill \<Rightarrow> ''skills''
                     | KitnStorage \<Rightarrow> ''storage'') @ ''/'' @ fs ! i))"
    by (cases "type m") (simp_all add: registryFile_def field_def)
  ultimately show ?thesis by auto
qed

theorem buildRegistryItem_installed_paths_witness:
  "(\<exists>item fl. buildRegistryItem ''2026-01-01T00:00:00.000Z''
                  (manifestOf ''echo'' KitnAgent [''echo.ts'', ''README.md''] ''0.1.0'')
                  [''echo.ts'' \<mapsto> ''export {}'', ''README.md'' \<mapsto> ''# echo''] = Inr item
      \<and> field item ''files'' = Some (JArr fl) \<and> length fl = 2
      \<and> field (fl ! 0) ''path'' = Some (JStr ''agents/echo.ts'')
      \<and> field (fl ! 1) ''path'' = Some (JStr ''agents/README.md''))
   \<and> (\<exists>item fl. buildRegistryItem ''2026-01-01T00:00:00.000Z''
                  (manifestOf ''echo'' KitnTool [''echo.ts'', ''README.md''] ''0.1.0'')
                  [''echo.ts'' \<mapsto> ''export {}'', ''README.md'' \<mapsto> ''# echo''] = Inr item
      \<and> field item ''files'' = Some (JArr fl) \<and> length fl = 2
      \<and> field (fl ! 0) ''path'' = Some (JStr ''tools/echo.ts'')
      \<and> field (fl ! 1) ''path'' = Some (JStr ''tools/README.md''))
   \<and> (\<exists>item fl. buildRegistryItem ''2026-01-01T00:00:00.000Z''
                  (manifestOf ''echo'' KitnSkill [''echo.ts'', ''README.md''] ''0.1.0'')
                  [''echo.ts'' \<mapsto> ''export {}'', ''README.md'' \<mapsto> ''# echo''] = Inr item
      \<and> field item ''files'' = Some (JArr fl) \<and> length fl = 2
      \<and> field (fl ! 0) ''path'' = Some (JStr ''skills/echo.ts'')
      \<and> field (fl ! 1) ''path'' = Some (JStr ''skills/README.md''))
   \<and> (\<exists>item fl. buildRegistryItem ''2026-01-01T00:00:00.000Z''
                  (manifestOf ''echo'' KitnStorage [''echo.ts'', ''README.md''] ''0.1.0'')
                  [''echo.ts'' \<mapsto> ''export {}'', ''README.md'' \<mapsto> ''# echo''] = Inr item
      \<and> field item ''files'' = Some (JArr fl) \<and> length fl = 2
      \<and> field (fl ! 0) ''path'' = Some (JStr ''storage/echo.ts'')
      \<and> field (fl ! 1) ''path'' = Some (JStr ''storage/README.md''))"
proof -
  let ?fc = "[''echo.ts'' \<mapsto> ''export {}'', ''README.md'' \<mapsto> ''# echo'']"
  have at: "\<exists>item fl. buildRegistryItem ''2026-01-01T00:00:00.000Z''
                  (manifestOf ''echo'' t [''echo.ts'', ''README.md''] ''0.1.0'') ?fc = Inr item
      \<and> field item ''files'' = Some (JArr fl) \<and> length fl = 2
      \<and> field (fl ! 0) ''path''
           = Some (JStr ((case t of KitnAgent \<Rightarrow> ''agents'' | KitnTool \<Rightarrow> ''tools''
                          | KitnSkill \<Rightarrow> ''skills'' | KitnStorage \<Rightarrow> ''storage'') @ ''/echo.ts''))
      \<and> field (fl ! 1) ''path''
           = Some (JStr ((case t of KitnAgent \<Rightarrow> ''agents'' | KitnTool \<Rightarrow> ''tools''
                          | KitnSkill \<Rightarrow> ''skills'' | KitnStorage \<Rightarrow> ''storage'') @ ''/README.md''))"
    for t
  proof -
    let ?m = "manifestOf ''echo'' t [''echo.ts'', ''README.md''] ''0.1.0''"
    have f: "files ?m = Some [''echo.ts'', ''README.md'']"
      by (simp add: manifestOf_def)
    have own: "set [''echo.ts'', ''README.md''] \<subseteq> dom ?fc"
      by simp
    have t: "type ?m = t"
      by (simp add: manifestOf_def)
    from buildRegistryItem_installed_paths [OF f own, of "''2026-01-01T00:00:00.000Z''"]
    obtain item fl where
      a: "buildRegistryItem ''2026-01-01T00:00:00.000Z'' ?m ?fc = Inr item"
      and b: "field item ''files'' = Some (JArr fl)"
      and c: "length fl = length [''echo.ts'', ''README.md'']"
      and d: "\<forall>i < length [''echo.ts'', ''README.md''].
                field (fl ! i) ''path''
                  = Some (JStr ((case t of KitnAgent \<Rightarrow> ''agents'' | KitnTool \<Rightarrow> ''tools''
                                 | KitnSkill \<Rightarrow> ''skills'' | KitnStorage \<Rightarrow> ''storage'')
                                @ ''/'' @ [''echo.ts'', ''README.md''] ! i))"
      unfolding t by blast
    from d have "field (fl ! 0) ''path''
           = Some (JStr ((case t of KitnAgent \<Rightarrow> ''agents'' | KitnTool \<Rightarrow> ''tools''
                          | KitnSkill \<Rightarrow> ''skills'' | KitnStorage \<Rightarrow> ''storage'') @ ''/echo.ts''))"
      by simp
    moreover from d have "field (fl ! 1) ''path''
           = Some (JStr ((case t of KitnAgent \<Rightarrow> ''agents'' | KitnTool \<Rightarrow> ''tools''
                          | KitnSkill \<Rightarrow> ''skills'' | KitnStorage \<Rightarrow> ''storage'') @ ''/README.md''))"
      by simp
    moreover from c have "length fl = 2" by simp
    ultimately show ?thesis using a b by blast
  qed
  from at [of KitnAgent] at [of KitnTool] at [of KitnSkill] at [of KitnStorage]
  show ?thesis by simp
qed

text \<open>
  Where a declared file has no entry in \<open>fileContents\<close> and its name is no member of
  \<open>Object.prototype\<close>, \<open>fileContents[fileName]\<close> is \<open>undefined\<close> and the content of
  the file's record is the empty string.
\<close>

lemma buildRegistryItem_missing_content:
  assumes "files m = Some fs"
    and "\<forall>f \<in> set fs. fc f = None \<longrightarrow> f \<notin> set objectPrototype"
  shows "\<exists>item fl. buildRegistryItem now m fc = Inr item
           \<and> field item ''files'' = Some (JArr fl)
           \<and> length fl = length fs
           \<and> (\<forall>i < length fs. fc (fs ! i) = None \<longrightarrow> field (fl ! i) ''content'' = Some (JStr []))"
proof -
  from buildRegistryItem_files [OF assms, of now]
  obtain item where "buildRegistryItem now m fc = Inr item"
    and "field item ''files'' = Some (JArr (map (registryFile m fc) fs))"
    by blast
  moreover have "field (map (registryFile m fc) fs ! i) ''content'' = Some (JStr [])"
    if "i < length fs" and "fc (fs ! i) = None" for i
  proof -
    from that assms(2) have "fs ! i \<notin> set objectPrototype" by simp
    with that(2) have "getProperty fc (fs ! i) = None" by (rule getProperty_undefined)
    with that(1) show ?thesis by (simp add: registryFile_def field_def)
  qed
  ultimately show ?thesis by auto
qed

lemma buildRegistryItem_missing_content_example:
  "\<exists>item fl. buildRegistryItem ''2026-01-01T00:00:00.000Z'' echoManifest
                 [''echo.ts'' \<mapsto> ''export {}''] = Inr item
     \<and> field item ''files'' = Some (JArr fl)
     \<and> length fl = 2
     \<and> field (fl ! 1) ''content'' = Some (JStr [])"
proof -
  have f: "files echoManifest = Some [''echo.ts'', ''README.md'']"
    by (simp add: echoManifest_def)
  have names: "\<forall>f \<in> set [''echo.ts'', ''README.md''].
      [''echo.ts'' \<mapsto> ''export {}''] f = None \<longrightarrow> f \<notin> set objectPrototype"
    by (simp add: objectPrototype_def)
  from buildRegistryItem_missing_content [OF f names]
  obtain item fl where
    a: "buildRegistryItem ''2026-01-01T00:00:00.000Z'' echoManifest
          [''echo.ts'' \<mapsto> ''export {}''] = Inr item"
    and b: "field item ''files'' = Some (JArr fl)"
    and c: "length fl = length [''echo.ts'', ''README.md'']"
    and d: "\<forall>i < length [''echo.ts'', ''README.md''].
              [''echo.ts'' \<mapsto> ''export {}''] ([''echo.ts'', ''README.md''] ! i) = None
              \<longrightarrow> field (fl ! i) ''content'' = Some (JStr [])"
    by blast
  from d have "field (fl ! 1) ''content'' = Some (JStr [])" by simp
  moreover from c have "length fl = 2" by simp
  ultimately show ?thesis using a b by blast
qed

text \<open>
  C10: the claim is that for every manifest with a files list and every
  \<open>fileContents\<close> the call does not fail when a declared file has no entry, the
  content being the empty string. The code reads \<open>fileContents[fileName] ?? ""\<close> from
  a plain object: for a declared name that \<open>Object.prototype\<close> has a member for,
  what is read is that member and not \<open>undefined\<close>, the default is not taken, and the
  schema rejects a content that is no string. With the files \<open>["toString"]\<close> and the
  empty \<open>fileContents\<close> the call throws the \<open>ZodError\<close>; so it does for the file
  \<open>__proto__\<close> with the \<open>fileContents\<close> the build script fills by assignment, which
  stores nothing under this name.
\<close>

theorem buildRegistryItem_inherited_name_throws:
  "buildRegistryItem now (manifestOf ''echo'' KitnTool [''toString''] ''1.0.0'') Map.empty
     = Inl ZodError
   \<and> setProperty Map.empty ''__proto__'' source = Map.empty
   \<and> buildRegistryItem now (manifestOf ''echo'' KitnTool [''__proto__''] ''1.0.0'')
       (setProperty Map.empty ''__proto__'' source)
     = Inl ZodError"
  by (simp add: buildRegistryItem_def parse_def registryItemSchema_def registryFileSchema_def
        componentType_def registryFile_def getProperty_def setProperty_def objectPrototype_def
        manifestOf_def property_def)

text \<open>
  C9: the lock schema accepts the empty object, and the result is the empty object.
\<close>

theorem lockSchema_accepts_empty:
  "parse lockSchema (JObj []) = Inr (JObj [])"
  by (simp add: parse_def lockSchema_def)

lemma zparse_file_object:
  "zparse registryFileSchema
     (Some (JObj [(''path'', JStr p), (''content'', JStr c), (''type'', JStr (typeName t))]))
   = Inr (Some (JObj [(''path'', JStr p), (''content'', JStr c), (''type'', JStr (typeName t))]))"
  by (simp add: registryFileSchema_def typeName_componentType)

text \<open>A file of a registry item, \<open>{path, content, type}\<close>.\<close>

definition fileObject :: "string \<times> string \<times> ComponentType \<Rightarrow> json" where
  "fileObject f = JObj [(''path'', JStr (fst f)), (''content'', JStr (fst (snd f))),
                        (''type'', JStr (typeName (snd (snd f))))]"

text \<open>
  C7: \<open>registryItemSchema\<close> parses \<open>{name, type: "kitn:agent", description, files}\<close>
  without a version, and the version of the result is \<open>"1.0.0"\<close>; with the type
  \<open>"invalid:type"\<close> the parse throws, whatever the files are.
\<close>

theorem registryItemSchema_default_version_and_invalid_type:
  "parse registryItemSchema
     (JObj [(''name'', JStr n), (''type'', JStr ''kitn:agent''), (''description'', JStr d),
            (''files'', JArr (map fileObject fl))])
   = Inr (JObj [(''name'', JStr n), (''type'', JStr ''kitn:agent''), (''description'', JStr d),
                (''files'', JArr (map fileObject fl)), (''version'', JStr ''1.0.0'')])
   \<and> parse registryItemSchema
     (JObj [(''name'', JStr n), (''type'', JStr ''invalid:type''), (''description'', JStr d),
            (''files'', anyFiles)])
   = Inl ZodError"
proof
  have f: "zparse (ZArray registryFileSchema) (Some (JArr (map fileObject fl)))
             = Inr (Some (JArr (map fileObject fl)))"
    by (rule zparse_array) (simp add: fileObject_def zparse_file_object)
  show "parse registryItemSchema
     (JObj [(''name'', JStr n), (''type'', JStr ''kitn:agent''), (''description'', JStr d),
            (''files'', JArr (map fileObject fl))])
   = Inr (JObj [(''name'', JStr n), (''type'', JStr ''kitn:agent''), (''description'', JStr d),
                (''files'', JArr (map fileObject fl)), (''version'', JStr ''1.0.0'')])"
    by (simp add: parse_def registryItemSchema_def f componentType_def del: zparse.simps(3))
  show "parse registryItemSchema
     (JObj [(''name'', JStr n), (''type'', JStr ''invalid:type''), (''description'', JStr d),
            (''files'', anyFiles)])
   = Inl ZodError"
    by (simp add: parse_def registryItemSchema_def componentType_def del: zparse.simps(3))
qed

section \<open>The versions list\<close>

text \<open>
  \<open>a.localeCompare(b, undefined, {numeric: true})\<close> belongs to the platform, and the
  build takes it from \<open>env\<close>. \<open>numericCompare\<close> is a model of it for strings of ASCII
  letters, digits, white space and punctuation, after the root collation the platform
  uses. A run of decimal digits counts as the number it writes. White space,
  punctuation and symbols come first, in the order of \<open>marks\<close>, then the numbers, then
  the letters. Letters are compared without their case; strings that are equal so far
  are told apart by the case, a lower-case letter first. Other characters are outside
  the model, which puts them last, by their code.
\<close>

datatype chunk = Number nat | Other char

definition digitValue :: "char \<Rightarrow> nat option" where
  "digitValue c = map_of (zip ''0123456789'' [0, 1, 2, 3, 4, 5, 6, 7, 8, 9]) c"

fun chunks :: "nat option \<Rightarrow> string \<Rightarrow> chunk list" where
  "chunks None [] = []"
| "chunks (Some n) [] = [Number n]"
| "chunks acc (c # cs) =
     (case digitValue c of
        Some d \<Rightarrow> chunks (Some (10 * (case acc of None \<Rightarrow> 0 | Some n \<Rightarrow> n) + d)) cs
      | None \<Rightarrow> (case acc of None \<Rightarrow> [] | Some n \<Rightarrow> [Number n]) @ Other c # chunks None cs)"

definition lowerCase :: string where
  "lowerCase = ''abcdefghijklmnopqrstuvwxyz''"

definition upperCase :: string where
  "upperCase = ''ABCDEFGHIJKLMNOPQRSTUVWXYZ''"

definition marks :: string where
  "marks = [CHR 0x09, CHR 0x0A, CHR 0x0B, CHR 0x0C, CHR 0x0D] @ '' _-,;:!?.''
           @ [CHR 0x27, CHR 0x22] @ ''()[]{}@*/'' @ [CHR 0x5C] @ ''&#%`^+<=>|~$''"

fun indexOf :: "'a \<Rightarrow> 'a list \<Rightarrow> nat" where
  "indexOf x [] = 0"
| "indexOf x (y # ys) = (if x = y then 0 else Suc (indexOf x ys))"

fun primary :: "chunk \<Rightarrow> nat list" where
  "primary (Number n) = [1, n]"
| "primary (Other c) =
     (if c \<in> set lowerCase then [2, indexOf c lowerCase]
      else if c \<in> set upperCase then [2, indexOf c upperCase]
      else if c \<in> set marks then [0, indexOf c marks]
      else [3, of_char c])"

fun tertiary :: "chunk \<Rightarrow> nat" where
  "tertiary (Number n) = 0"
| "tertiary (Other c) = (if c \<in> set upperCase then 1 else 0)"

fun compareLists :: "nat list \<Rightarrow> nat list \<Rightarrow> int" where
  "compareLists [] [] = 0"
| "compareLists [] (y # ys) = - 1"
| "compareLists (x # xs) [] = 1"
| "compareLists (x # xs) (y # ys) =
     (if x < y then - 1 else if y < x then 1 else compareLists xs ys)"

definition numericCompare :: "string \<Rightarrow> string \<Rightarrow> int" where
  "numericCompare a b =
     (let first = compareLists (concat (map primary (chunks None a)))
                               (concat (map primary (chunks None b)))
      in if first \<noteq> 0 then first
         else compareLists (map tertiary (chunks None a)) (map tertiary (chunks None b)))"

lemma set_insertBy: "set (insertBy cmp x xs) = insert x (set xs)"
  by (induction xs) auto

lemma mset_insertBy: "mset (insertBy cmp x xs) = add_mset x (mset xs)"
  by (induction xs) auto

lemma mset_sortBy: "mset (sortBy cmp xs) = mset xs"
  by (induction xs) (simp_all add: sortBy_def mset_insertBy)

lemma sorted_insertBy:
  assumes total: "\<forall>a b. cmp a b \<le> 0 \<or> cmp b a \<le> 0"
    and trans: "\<forall>a b c. cmp a b \<le> 0 \<and> cmp b c \<le> 0 \<longrightarrow> cmp a c \<le> 0"
  shows "sorted_wrt (\<lambda>a b. cmp a b \<le> 0) xs \<Longrightarrow> sorted_wrt (\<lambda>a b. cmp a b \<le> 0) (insertBy cmp x xs)"
proof (induction xs)
  case Nil
  then show ?case by simp
next
  case (Cons y ys)
  from Cons.prems have ys: "sorted_wrt (\<lambda>a b. cmp a b \<le> 0) ys"
    and y: "\<And>z. z \<in> set ys \<Longrightarrow> cmp y z \<le> 0"
    by simp_all
  show ?case
  proof (cases "cmp x y \<le> 0")
    case True
    have "\<And>z. z \<in> set ys \<Longrightarrow> cmp x z \<le> 0"
    proof -
      fix z assume "z \<in> set ys"
      then have "cmp y z \<le> 0" by (rule y)
      with True trans show "cmp x z \<le> 0" by blast
    qed
    with True ys y show ?thesis by simp
  next
    case False
    with total have yx: "cmp y x \<le> 0" by blast
    from Cons.IH [OF ys] have "sorted_wrt (\<lambda>a b. cmp a b \<le> 0) (insertBy cmp x ys)" .
    with False yx y show ?thesis by (simp add: set_insertBy)
  qed
qed

lemma sorted_sortBy:
  assumes total: "\<forall>a b. cmp a b \<le> 0 \<or> cmp b a \<le> 0"
    and trans: "\<forall>a b c. cmp a b \<le> 0 \<and> cmp b c \<le> 0 \<longrightarrow> cmp a c \<le> 0"
  shows "sorted_wrt (\<lambda>a b. cmp a b \<le> 0) (sortBy cmp xs)"
  by (induction xs) (simp_all add: sortBy_def sorted_insertBy [OF total trans])

lemma le0_Nil: "compareLists [] ys \<le> 0"
  by (cases ys) simp_all

lemma le0_Cons_Nil: "\<not> compareLists (x # xs) [] \<le> 0"
  by simp

lemma le0_Cons:
  "compareLists (x # xs) (y # ys) \<le> 0 \<longleftrightarrow> x < y \<or> (x = y \<and> compareLists xs ys \<le> 0)"
  by auto

lemma compareLists_total: "compareLists xs ys \<le> 0 \<or> compareLists ys xs \<le> 0"
proof (induction xs ys rule: compareLists.induct)
  case (4 x xs y ys)
  then show ?case unfolding le0_Cons by (cases "x < y"; cases "y < x") simp_all
qed simp_all

lemma compareLists_trans:
  "compareLists xs ys \<le> 0 \<Longrightarrow> compareLists ys zs \<le> 0 \<Longrightarrow> compareLists xs zs \<le> 0"
proof (induction xs arbitrary: ys zs)
  case Nil
  show ?case by (rule le0_Nil)
next
  case (Cons x xs)
  from Cons.prems(1) obtain y ys' where ys: "ys = y # ys'"
    by (cases ys) simp_all
  from Cons.prems(2) ys obtain z zs' where zs: "zs = z # zs'"
    by (cases zs) simp_all
  from Cons.prems Cons.IH [of ys' zs'] show ?case
    unfolding ys zs le0_Cons by (elim disjE conjE) simp_all
qed

lemma compareLists_eq0: "compareLists xs ys = 0 \<longleftrightarrow> xs = ys"
  by (induction xs ys rule: compareLists.induct) auto

lemma compareLists_antisym:
  "compareLists xs ys \<le> 0 \<Longrightarrow> compareLists ys xs \<le> 0 \<Longrightarrow> xs = ys"
proof (induction xs arbitrary: ys)
  case Nil
  then show ?case by (cases ys) simp_all
next
  case (Cons x xs)
  from Cons.prems(1) obtain y ys' where ys: "ys = y # ys'"
    by (cases ys) simp_all
  from Cons.prems have "x < y \<or> (x = y \<and> compareLists xs ys' \<le> 0)"
    and "y < x \<or> (y = x \<and> compareLists ys' xs \<le> 0)"
    unfolding ys le0_Cons by blast+
  then have "x = y" and "compareLists xs ys' \<le> 0" and "compareLists ys' xs \<le> 0"
    by auto
  with Cons.IH [of ys'] show ?case unfolding ys by simp
qed

lemma three_perm:
  assumes "mset xs = {#a, b, c#}"
  shows "xs = [a, b, c] \<or> xs = [a, c, b] \<or> xs = [b, a, c] \<or> xs = [b, c, a] \<or> xs = [c, a, b] \<or> xs = [c, b, a]"
proof -
  from assms have "size (mset xs) = 3" by simp
  then have "length xs = 3" by simp
  then obtain x y z where xs: "xs = [x, y, z]"
    by (metis length_0_conv length_Suc_conv numeral_3_eq_3)
  with assms have "{#x, y, z#} = {#a, b, c#}" by simp
  then show ?thesis unfolding xs
    by (auto simp: add_eq_conv_ex)
qed

lemma mset_map_filter_cong:
  "mset xs = mset ys \<Longrightarrow> mset (List.map_filter g xs) = mset (List.map_filter g ys)"
  by (simp add: List.map_filter_def flip: mset_filter mset_map) (metis mset_filter mset_map)

lemma numericCompare_le0:
  "numericCompare a b \<le> 0 \<longleftrightarrow>
     (if concat (map primary (chunks None a)) = concat (map primary (chunks None b))
      then compareLists (map tertiary (chunks None a)) (map tertiary (chunks None b)) \<le> 0
      else compareLists (concat (map primary (chunks None a)))
                        (concat (map primary (chunks None b))) \<le> 0)"
  by (simp add: numericCompare_def Let_def compareLists_eq0)

lemma numericCompare_total: "\<forall>a b. numericCompare a b \<le> 0 \<or> numericCompare b a \<le> 0"
proof (intro allI)
  fix a b
  show "numericCompare a b \<le> 0 \<or> numericCompare b a \<le> 0"
  proof (cases "concat (map primary (chunks None a)) = concat (map primary (chunks None b))")
    case True
    then show ?thesis unfolding numericCompare_le0 using compareLists_total by simp
  next
    case False
    then have "concat (map primary (chunks None b)) \<noteq> concat (map primary (chunks None a))"
      by simp
    with False show ?thesis unfolding numericCompare_le0 using compareLists_total by simp
  qed
qed

lemma numericCompare_trans:
  "\<forall>a b c. numericCompare a b \<le> 0 \<and> numericCompare b c \<le> 0 \<longrightarrow> numericCompare a c \<le> 0"
proof (intro allI impI, elim conjE)
  fix a b c
  let ?p = "\<lambda>s. concat (map primary (chunks None s))"
  let ?t = "\<lambda>s. map tertiary (chunks None s)"
  assume ab: "numericCompare a b \<le> 0" and bc: "numericCompare b c \<le> 0"
  show "numericCompare a c \<le> 0"
  proof (cases "?p a = ?p b")
    case pab: True
    show ?thesis
    proof (cases "?p b = ?p c")
      case True
      from ab pab have "compareLists (?t a) (?t b) \<le> 0" by (simp add: numericCompare_le0)
      moreover from bc True have "compareLists (?t b) (?t c) \<le> 0" by (simp add: numericCompare_le0)
      ultimately have "compareLists (?t a) (?t c) \<le> 0" by (rule compareLists_trans)
      with pab True show ?thesis by (simp add: numericCompare_le0)
    next
      case False
      with bc have "compareLists (?p b) (?p c) \<le> 0" by (simp add: numericCompare_le0)
      with pab False show ?thesis by (simp add: numericCompare_le0)
    qed
  next
    case pab: False
    with ab have 1: "compareLists (?p a) (?p b) \<le> 0" by (simp add: numericCompare_le0)
    show ?thesis
    proof (cases "?p b = ?p c")
      case True
      with 1 pab show ?thesis by (simp add: numericCompare_le0)
    next
      case False
      with bc have 2: "compareLists (?p b) (?p c) \<le> 0" by (simp add: numericCompare_le0)
      from 1 2 have 3: "compareLists (?p a) (?p c) \<le> 0" by (rule compareLists_trans)
      have "?p a \<noteq> ?p c"
      proof
        assume eq: "?p a = ?p c"
        with 2 have "compareLists (?p b) (?p a) \<le> 0" by simp
        with 1 have "?p a = ?p b" by (rule compareLists_antisym)
        with pab show False by simp
      qed
      with 3 show ?thesis by (simp add: numericCompare_le0)
    qed
  qed
qed

lemma startsWith_append: "startsWith (l @ t) l"
  by (induction l) simp_all

lemma startsWith_same_prefix: "startsWith (n @ s) (n @ p) = startsWith s p"
  by (induction n) simp_all

lemma rmatch_Lit_append:
  "rmatch (Lit l # r) (l @ t) opens caps = rmatch r t opens caps"
  by (simp add: startsWith_append)

lemma matchVersion_at:
  "matchVersion n ((n @ ''@'') @ t) =
     (case rmatch [GroupOpen, Plus NotNewline, GroupClose, Lit ''.json'', EndOfInput] t [] [] of
        Some (caps, rest) \<Rightarrow> (case caps of [] \<Rightarrow> None | m1 # ms \<Rightarrow> Some m1)
      | None \<Rightarrow> None)"
  by (simp only: matchVersion_def versionPattern_def rmatch_Lit_append)

lemma matchVersion_stamped:
  "matchVersion n (n @ ''@1.0.0.json'') = Some ''1.0.0''"
  "matchVersion n (n @ ''@2.0.0.json'') = Some ''2.0.0''"
  "matchVersion n (n @ ''@10.0.0.json'') = Some ''10.0.0''"
proof -
  have "matchVersion n ((n @ ''@'') @ ''1.0.0.json'') = Some ''1.0.0''"
    unfolding matchVersion_at by simp
  then show "matchVersion n (n @ ''@1.0.0.json'') = Some ''1.0.0''" by simp
  have "matchVersion n ((n @ ''@'') @ ''2.0.0.json'') = Some ''2.0.0''"
    unfolding matchVersion_at by simp
  then show "matchVersion n (n @ ''@2.0.0.json'') = Some ''2.0.0''" by simp
  have "matchVersion n ((n @ ''@'') @ ''10.0.0.json'') = Some ''10.0.0''"
    unfolding matchVersion_at by simp
  then show "matchVersion n (n @ ''@10.0.0.json'') = Some ''10.0.0''" by simp
qed

lemma matchVersion_latest: "matchVersion n (n @ ''.json'') = None"
proof -
  have "\<not> startsWith (n @ ''.json'') (n @ ''@'')"
    unfolding startsWith_same_prefix by simp
  then show ?thesis by (simp add: matchVersion_def versionPattern_def)
qed

lemma numericCompare_examples:
  "numericCompare ''1.0.0'' ''2.0.0'' = - 1" "numericCompare ''2.0.0'' ''1.0.0'' = 1"
  "numericCompare ''1.0.0'' ''10.0.0'' = - 1" "numericCompare ''10.0.0'' ''1.0.0'' = 1"
  "numericCompare ''2.0.0'' ''10.0.0'' = - 1" "numericCompare ''10.0.0'' ''2.0.0'' = 1"
  by (simp_all add: numericCompare_def digitValue_def lowerCase_def upperCase_def marks_def)

lemma sortBy_stamped:
  assumes "mset vs = {#''1.0.0'', ''2.0.0'', ''10.0.0''#}"
  shows "sortBy (\<lambda>a b. numericCompare b a) vs = [''10.0.0'', ''2.0.0'', ''1.0.0'']"
  using three_perm [OF assms]
  by (elim disjE) (simp_all add: sortBy_def numericCompare_examples)

text \<open>
  C4: the versions list rebuilt from the entries of the output directory holds the
  versions of the files \<open><name>@<version>.json\<close> and is sorted descending under the
  comparison the platform gives, for every comparison that is a total preorder. With
  the numeric comparison, and the entries being the latest file and the files stamped
  1.0.0, 2.0.0 and 10.0.0 in any order, the list is exactly 10.0.0, 2.0.0, 1.0.0.
\<close>

theorem collectVersions_sorted_descending:
  assumes total: "\<forall>a b. lc a b \<le> 0 \<or> lc b a \<le> 0"
    and trans: "\<forall>a b c. lc a b \<le> 0 \<and> lc b c \<le> 0 \<longrightarrow> lc a c \<le> 0"
  shows "sorted_wrt (\<lambda>a b. lc b a \<le> 0) (collectVersions lc n dirEntries)
    \<and> mset (collectVersions lc n dirEntries) = mset (List.map_filter (matchVersion n) dirEntries)
    \<and> (mset dirEntries
          = mset [n @ ''.json'', n @ ''@1.0.0.json'', n @ ''@2.0.0.json'', n @ ''@10.0.0.json'']
        \<longrightarrow> collectVersions numericCompare n dirEntries = [''10.0.0'', ''2.0.0'', ''1.0.0''])"
proof (intro conjI impI)
  from total have t: "\<forall>a b. (\<lambda>a b. lc b a) a b \<le> 0 \<or> (\<lambda>a b. lc b a) b a \<le> 0" by blast
  from trans have r: "\<forall>a b c. (\<lambda>a b. lc b a) a b \<le> 0 \<and> (\<lambda>a b. lc b a) b c \<le> 0
      \<longrightarrow> (\<lambda>a b. lc b a) a c \<le> 0" by blast
  from sorted_sortBy [OF t r]
  show "sorted_wrt (\<lambda>a b. lc b a \<le> 0) (collectVersions lc n dirEntries)"
    by (simp add: collectVersions_def)
  show "mset (collectVersions lc n dirEntries) = mset (List.map_filter (matchVersion n) dirEntries)"
    by (simp add: collectVersions_def mset_sortBy)
  assume "mset dirEntries
    = mset [n @ ''.json'', n @ ''@1.0.0.json'', n @ ''@2.0.0.json'', n @ ''@10.0.0.json'']"
  from mset_map_filter_cong [OF this, of "matchVersion n"]
  have "mset (List.map_filter (matchVersion n) dirEntries) = {#''1.0.0'', ''2.0.0'', ''10.0.0''#}"
    by (simp add: List.map_filter_simps matchVersion_stamped matchVersion_latest)
  from sortBy_stamped [OF this]
  show "collectVersions numericCompare n dirEntries = [''10.0.0'', ''2.0.0'', ''1.0.0'']"
    by (simp add: collectVersions_def)
qed

theorem collectVersions_sorted_descending_witness:
  "collectVersions numericCompare ''echo''
     [''echo@2.0.0.json'', ''echo.json'', ''echo@10.0.0.json'', ''other@3.0.0.json'', ''echo@1.0.0.json'']
     = [''10.0.0'', ''2.0.0'', ''1.0.0'']
   \<and> sorted_wrt (\<lambda>a b. numericCompare b a \<le> 0) [''10.0.0'', ''2.0.0'', ''1.0.0'']"
proof -
  have c: "collectVersions numericCompare ''echo''
     [''echo@2.0.0.json'', ''echo.json'', ''echo@10.0.0.json'', ''other@3.0.0.json'', ''echo@1.0.0.json'']
     = [''10.0.0'', ''2.0.0'', ''1.0.0'']"
    by (simp add: collectVersions_def matchVersion_def versionPattern_def List.map_filter_simps
          sortBy_def numericCompare_examples)
  from collectVersions_sorted_descending [OF numericCompare_total numericCompare_trans,
      of "''echo''" "[''echo@2.0.0.json'', ''echo.json'', ''echo@10.0.0.json'', ''other@3.0.0.json'', ''echo@1.0.0.json'']"]
  show ?thesis unfolding c by simp
qed

section \<open>The validator reads only\<close>

text \<open>A computation that leaves the world as it is.\<close>

definition unchanged :: "'a io \<Rightarrow> bool" where
  "unchanged m = (\<forall>w. snd (m w) = w)"

lemma unchanged_returnIO: "unchanged (returnIO x)"
  by (simp add: unchanged_def returnIO_def)

lemma unchanged_throwIO: "unchanged (throwIO e)"
  by (simp add: unchanged_def throwIO_def)

lemma unchanged_readFile: "unchanged (readFile p)"
  by (simp add: unchanged_def readFile_def split: option.splits)

lemma unchanged_readdir: "unchanged (readdir p)"
  by (simp add: unchanged_def readdir_def split: option.splits)

lemma unchanged_bindIO:
  assumes "unchanged m" and "\<And>x. unchanged (f x)"
  shows "unchanged (bindIO m f)"
  unfolding unchanged_def
proof
  fix w
  from assms(1) have m: "snd (m w) = w" by (simp add: unchanged_def)
  show "snd (bindIO m f w) = w"
  proof (cases "m w")
    case (Pair r w')
    with m have w': "w' = w" by simp
    show ?thesis
    proof (cases r)
      case (Inl e)
      with Pair w' show ?thesis by (simp add: bindIO_def)
    next
      case (Inr x)
      from assms(2) [of x] have "snd (f x w) = w" by (simp add: unchanged_def)
      with Pair Inr w' show ?thesis by (simp add: bindIO_def)
    qed
  qed
qed

lemma unchanged_tryIO:
  assumes "unchanged m" and "\<And>e. unchanged (h e)"
  shows "unchanged (tryIO m h)"
  unfolding unchanged_def
proof
  fix w
  from assms(1) have m: "snd (m w) = w" by (simp add: unchanged_def)
  show "snd (tryIO m h w) = w"
  proof (cases "m w")
    case (Pair r w')
    with m have w': "w' = w" by simp
    show ?thesis
    proof (cases r)
      case (Inl e)
      from assms(2) [of e] have "snd (h e w) = w" by (simp add: unchanged_def)
      with Pair Inl w' show ?thesis by (simp add: tryIO_def)
    next
      case (Inr x)
      with Pair w' show ?thesis by (simp add: tryIO_def)
    qed
  qed
qed

lemma forEachIO_unchanged_step:
  assumes "\<And>x st. unchanged (body x st)"
  shows "snd (forEachIO body xs st w) = w"
proof (induction xs arbitrary: st)
  case Nil
  show ?case by simp
next
  case (Cons x xs)
  from assms [of x st] have b: "snd (body x st w) = w" by (simp add: unchanged_def)
  show ?case
  proof (cases "body x st w")
    case (Pair r w')
    with b have w': "w' = w" by simp
    show ?thesis
    proof (cases r)
      case (Inl e)
      with Pair w' show ?thesis by simp
    next
      case (Inr st')
      with Pair w' Cons.IH [of st'] show ?thesis by simp
    qed
  qed
qed

lemma unchanged_forEachIO:
  assumes "\<And>x st. unchanged (body x st)"
  shows "unchanged (forEachIO body xs st)"
  unfolding unchanged_def
proof
  fix w
  show "snd (forEachIO body xs st w) = w"
    by (rule forEachIO_unchanged_step) (rule assms)
qed

lemma unchanged_loadFile: "unchanged (loadFile dir entry manifest fileName lay)"
  unfolding loadFile_def Let_def
  by (intro unchanged_bindIO unchanged_readFile unchanged_returnIO)

lemma unchanged_loadComponent: "unchanged (loadComponent env dir entry lay)"
  unfolding loadComponent_def
  by (intro unchanged_bindIO unchanged_tryIO unchanged_readFile unchanged_returnIO)
     (auto split: option.splits intro!: unchanged_returnIO unchanged_throwIO unchanged_forEachIO unchanged_loadFile)

lemma unchanged_loadType: "unchanged (loadType env typeDir lay)"
  unfolding loadType_def Let_def
  by (intro unchanged_bindIO unchanged_tryIO unchanged_readdir unchanged_returnIO)
     (auto split: option.splits intro!: unchanged_returnIO unchanged_forEachIO unchanged_loadComponent)

lemma unchanged_loadLayout: "unchanged (loadLayout env)"
  unfolding loadLayout_def by (intro unchanged_forEachIO unchanged_loadType)

lemma loadLayout_world: "snd (loadLayout env w) = w"
  using unchanged_loadLayout [of env] by (simp add: unchanged_def)

lemma disk_main: "disk (snd (main env w)) = disk w"
proof (cases "loadLayout env w")
  case (Pair r w1)
  with loadLayout_world [of env w] have w1: "w1 = w" by simp
  show ?thesis
  proof (cases r)
    case (Inl e)
    with Pair w1 show ?thesis by (simp add: main_def)
  next
    case (Inr lay)
    with Pair w1 show ?thesis by (simp add: main_def Let_def split: option.splits)
  qed
qed

text \<open>
  C8: a run of the validator leaves the file system as it found it: no file and no
  directory is written, created or deleted, whether the run finds errors, ends by an
  exception or succeeds.
\<close>

theorem validator_leaves_file_system_unchanged:
  "disk (snd (runValidate env d)) = d"
  by (simp add: runValidate_def disk_main)

section \<open>Findings and the exit status of the validator\<close>

text \<open>
  A finding is what phase 2 and 3 count in \<open>errors\<close>: the head of an unresolved or
  cross-type import, or a registry dependency that does not exist.
\<close>

fun isFinding :: "line \<Rightarrow> bool" where
  "isFinding (ErrorAt componentName installedPath) = True"
| "isFinding (DependencyMissing n dep) = True"
| "isFinding l = False"

fun isThrew :: "line \<Rightarrow> bool" where
  "isThrew (Threw e) = True"
| "isThrew l = False"

definition counted :: "report \<Rightarrow> bool" where
  "counted st = (errors st = length (filter isFinding (out st)) \<and> filter isThrew (out st) = [])"

lemma counted_forEachR:
  assumes "counted st" and "\<And>x s. counted s \<Longrightarrow> counted (body x s)"
  shows "counted (forEachR body xs st)"
  using assms(1) by (induction xs arbitrary: st) (simp_all add: assms(2))

lemma counted_checkAliasImport:
  "counted st \<Longrightarrow> counted (checkAliasImport lay componentName installedPath imported st)"
  by (simp add: counted_def checkAliasImport_def Let_def)

lemma counted_suggest: "counted st \<Longrightarrow> counted (suggest lay componentName candidate st)"
  by (simp add: counted_def suggest_def Let_def split: option.splits)

lemma counted_EmptyLine: "counted s \<Longrightarrow> counted (s\<lparr>out := out s @ [EmptyLine]\<rparr>)"
  by (simp add: counted_def)

lemma counted_checkRelativeImport:
  assumes "counted st"
  shows "counted (checkRelativeImport env lay componentName installedPath importPath st)"
proof -
  have unresolved: "counted (forEachR (suggest lay componentName) cs
      (st\<lparr>importsChecked := i, errors := Suc (errors st),
          out := out st @ [ErrorAt componentName installedPath, NotInRegistry importPath t]\<rparr>))"
    for cs i t
  proof (rule counted_forEachR)
    from assms show "counted (st\<lparr>importsChecked := i, errors := Suc (errors st),
          out := out st @ [ErrorAt componentName installedPath, NotInRegistry importPath t]\<rparr>)"
      by (simp add: counted_def)
  qed (rule counted_suggest)
  have crossType: "counted (st\<lparr>importsChecked := i, errors := Suc (errors st),
      out := out st @ [ErrorAt componentName installedPath, CrossTypeImport importPath,
                       HintUseAlias td f, EmptyLine]\<rparr>)" for i td f
    using assms by (simp add: counted_def)
  have resolved: "counted (st\<lparr>importsChecked := i\<rparr>)" for i
    using assms by (simp add: counted_def)
  show ?thesis
    unfolding checkRelativeImport_def Let_def
    by (simp add: unresolved crossType resolved counted_EmptyLine)
qed

lemma counted_checkFile:
  assumes "counted st"
  shows "counted (checkFile env lay installed st)"
proof (cases "extname (fst installed) = ''.ts''")
  case False
  with assms show ?thesis by (simp add: checkFile_def)
next
  case True
  have "counted (forEachR (checkRelativeImport env lay (snd installed) (fst installed)) rs
      (forEachR (checkAliasImport lay (snd installed) (fst installed)) as
         (st\<lparr>filesChecked := Suc (filesChecked st)\<rparr>)))" for rs as
  proof (rule counted_forEachR)
    show "counted (forEachR (checkAliasImport lay (snd installed) (fst installed)) as
         (st\<lparr>filesChecked := Suc (filesChecked st)\<rparr>))"
    proof (rule counted_forEachR)
      from assms show "counted (st\<lparr>filesChecked := Suc (filesChecked st)\<rparr>)"
        by (simp add: counted_def)
    qed (rule counted_checkAliasImport)
  qed (rule counted_checkRelativeImport)
  with True show ?thesis by (simp add: checkFile_def Let_def)
qed

lemma counted_checkDependency: "counted st \<Longrightarrow> counted (checkDependency lay n dep st)"
  by (simp add: checkDependency_def counted_def)

lemma counted_checkDependencies: "counted st \<Longrightarrow> counted (checkDependencies lay entry st)"
  unfolding checkDependencies_def
  by (rule counted_forEachR) (simp_all add: counted_checkDependency)

lemma counted_validate: "counted (validate env lay)"
  unfolding validate_def
proof (rule counted_forEachR)
  show "counted (forEachR (checkFile env lay) (installedFiles lay)
     \<lparr>errors = 0, filesChecked = 0, importsChecked = 0, out = [], thrown = None\<rparr>)"
    by (rule counted_forEachR) (simp_all add: counted_def counted_checkFile [unfolded counted_def])
qed (rule counted_checkDependencies)

lemma filter_isFinding_positive: "0 < length (filter isFinding ls) \<Longrightarrow> \<exists>l \<in> set ls. isFinding l"
  by (induction ls) (auto split: if_splits)

lemma filter_empty_none: "filter P ls = [] \<Longrightarrow> \<forall>l \<in> set ls. \<not> P l"
  by (simp add: filter_empty_conv)

lemma main_status:
  assumes "console w = []"
  shows "fst (main env w)
    = (if \<exists>l \<in> set (console (snd (main env w))). isFinding l \<or> isThrew l then 1 else 0)"
proof (cases "loadLayout env w")
  case (Pair r w1)
  with loadLayout_world [of env w] have w1: "w1 = w" by simp
  show ?thesis
  proof (cases r)
    case (Inl e)
    with Pair show ?thesis by (simp add: main_def)
  next
    case (Inr lay)
    let ?st = "validate env lay"
    from counted_validate [of env lay]
    have e: "errors ?st = length (filter isFinding (out ?st))" and t: "filter isThrew (out ?st) = []"
      by (simp_all add: counted_def)
    show ?thesis
    proof (cases "thrown ?st")
      case (Some e)
      with Pair Inr show ?thesis by (simp add: main_def Let_def)
    next
      case None
      show ?thesis
      proof (cases "0 < errors ?st")
        case True
        with e have "\<exists>l \<in> set (out ?st). isFinding l" by (simp add: filter_isFinding_positive)
        with Pair Inr None True show ?thesis by (auto simp: main_def Let_def)
      next
        case False
        with e have "filter isFinding (out ?st) = []" by simp
        then have "\<forall>l \<in> set (out ?st). \<not> isFinding l" by (rule filter_empty_none)
        moreover from t have "\<forall>l \<in> set (out ?st). \<not> isThrew l" by (rule filter_empty_none)
        ultimately show ?thesis using Pair Inr None False w1 assms
          by (auto simp: main_def Let_def)
      qed
    qed
  qed
qed

text \<open>
  C6, amended: the exit status of a validate run is 1 if and only if a finding was
  printed (an unresolved reference, a cross-type import, a registry dependency that
  does not exist) or an exception ended the run; it is 0 otherwise.
\<close>

theorem validate_exit_status:
  "fst (runValidate env d)
    = (if \<exists>l \<in> set (console (snd (runValidate env d))). isFinding l \<or> isThrew l then 1 else 0)"
  unfolding runValidate_def by (rule main_status) simp

text \<open>
  A platform for the instances below: the repository is at \<open>/repo\<close>, and
  \<open>JSON.parse\<close> reads the manifest texts of \<open>sampleManifests\<close>.
\<close>

definition sampleManifests :: "(string \<times> ComponentManifest) list" where
  "sampleManifests =
     [(''echo manifest'', echoManifest),
      (''x manifest'', manifestOf ''x'' KitnTool [''x.ts''] ''1.0.0''),
      (''y manifest'', manifestOf ''y'' KitnAgent [''y.ts''] ''1.0.0''),
      (''greeter manifest'', manifestOf ''greeter'' KitnAgent [''greeter.ts''] ''1.0.0''),
      (''other manifest'', manifestOf ''other'' KitnAgent [''missing.ts''] ''1.0.0''),
      (''foo manifest'', manifestOf ''foo'' KitnTool [] ''1.0.0''),
      (''foo@1.0.0 manifest'', manifestOf ''foo@1.0.0'' KitnTool [] ''2.0.0'')]"

definition sampleEnv :: env where
  "sampleEnv =
     \<lparr>ROOT = [''repo''], cwd = ''/repo'',
      JSON_parse = map_of sampleManifests,
      JSON_stringify = (\<lambda>j. case field j ''updatedAt'' of Some (JStr t) \<Rightarrow> t | _ \<Rightarrow> []),
      toISOString = ''2026-01-01T00:00:00.000Z'',
      localeCompare = numericCompare\<rparr>"

text \<open>A repository whose one component declares two files and has neither.\<close>

definition missingSourceDisk :: filesystem where
  "missingSourceDisk =
     \<lparr>regular = [[''repo'', ''components'', ''tools'', ''echo'', ''manifest.json''] \<mapsto> ''echo manifest''],
      dirs = [[''repo'', ''components'', ''tools''] \<mapsto> [''echo'']]\<rparr>"

lemmas io_defs = bindIO_def tryIO_def returnIO_def throwIO_def readdir_def readFile_def
lemmas path_defs = join_def COMPONENTS_DIR_def OUTPUT_DIR_def normalizeSegments_def normalizeStep_def

lemma sampleEnv_fields:
  "ROOT sampleEnv = [''repo'']" "cwd sampleEnv = ''/repo''"
  "JSON_parse sampleEnv = map_of sampleManifests"
  "toISOString sampleEnv = ''2026-01-01T00:00:00.000Z''"
  "localeCompare sampleEnv = numericCompare"
  by (simp_all add: sampleEnv_def)

lemma echoManifest_fields:
  "name echoManifest = ''echo''" "type echoManifest = KitnTool"
  "files echoManifest = Some [''echo.ts'', ''README.md'']"
  "registryDependencies echoManifest = None" "version echoManifest = Some ''0.1.0''"
  by (simp_all add: echoManifest_def)

lemma missingSource_run:
  "runValidate sampleEnv missingSourceDisk = (1, \<lparr>disk = missingSourceDisk, console = [Threw ENOENT]\<rparr>)"
  by (simp add: runValidate_def main_def loadLayout_def typeDirs_def loadType_def loadComponent_def
        loadFile_def io_defs path_defs Let_def sampleEnv_fields sampleManifests_def
        missingSourceDisk_def echoManifest_fields)

text \<open>
  C6 as stated fails: in a repository where a declared file is missing, \<open>readFile\<close>
  throws in phase 1, the handler of \<open>main\<close> exits with status 1, and no finding was
  printed.
\<close>

theorem validate_exit_status_counterexample:
  "fst (runValidate sampleEnv missingSourceDisk) = 1
   \<and> \<not> (\<exists>l \<in> set (console (snd (runValidate sampleEnv missingSourceDisk))). isFinding l)"
  by (simp add: missingSource_run)

section \<open>What the validator flags\<close>

text \<open>Every owner of an installed file is a key of \<open>manifests\<close>.\<close>

definition ownersKnown :: "layout \<Rightarrow> bool" where
  "ownersKnown lay = (\<forall>installed \<in> set (installedFiles lay). map_of (manifests lay) (snd installed) \<noteq> None)"

lemma set_update_subset: "set (AList.update k v al) \<subseteq> insert (k, v) (set al)"
  by (induction al) auto

lemma forEachIO_invariant:
  assumes step: "\<And>x st w st' w'. P st \<Longrightarrow> body x st w = (Inr st', w') \<Longrightarrow> P st'"
  shows "P st \<Longrightarrow> forEachIO body xs st w = (Inr st', w') \<Longrightarrow> P st'"
proof (induction xs arbitrary: st w)
  case Nil
  then show ?case by simp
next
  case (Cons x xs)
  show ?case
  proof (cases "body x st w")
    case (Pair r w1)
    show ?thesis
    proof (cases r)
      case (Inl e)
      with Pair Cons.prems show ?thesis by simp
    next
      case (Inr st1)
      from step [OF Cons.prems(1)] Pair Inr have "P st1" by simp
      moreover from Cons.prems(2) Pair Inr have "forEachIO body xs st1 w1 = (Inr st', w')" by simp
      ultimately show ?thesis by (rule Cons.IH)
    qed
  qed
qed

lemma loadFile_owners:
  assumes "ownersKnown lay \<and> map_of (manifests lay) (name manifest) \<noteq> None"
    and "loadFile dir entry manifest fileName lay w = (Inr lay', w')"
  shows "ownersKnown lay' \<and> map_of (manifests lay') (name manifest) \<noteq> None"
proof -
  let ?p = "typeToDir (type manifest) @ ''/'' @ fileName"
  from assms(2) obtain source where
    lay': "lay' = lay\<lparr>installedFiles := AList.update ?p (name manifest) (installedFiles lay),
                      fileContents := AList.update ?p source (fileContents lay)\<rparr>"
    by (auto simp: loadFile_def Let_def bindIO_def returnIO_def readFile_def split: option.splits)
  have "\<And>installed. installed \<in> set (AList.update ?p (name manifest) (installedFiles lay))
      \<Longrightarrow> map_of (manifests lay) (snd installed) \<noteq> None"
  proof -
    fix installed
    assume "installed \<in> set (AList.update ?p (name manifest) (installedFiles lay))"
    with set_update_subset have "installed = (?p, name manifest) \<or> installed \<in> set (installedFiles lay)"
      by fastforce
    with assms(1) show "map_of (manifests lay) (snd installed) \<noteq> None"
      by (auto simp: ownersKnown_def)
  qed
  with assms(1) show ?thesis by (simp add: lay' ownersKnown_def)
qed

lemma loadComponent_owners:
  assumes "ownersKnown lay" and "loadComponent env dir entry lay w = (Inr lay', w')"
  shows "ownersKnown lay'"
proof (cases "readFile (join dir [entry, ''manifest.json'']) w")
  case (Pair r w1)
  show ?thesis
  proof (cases r)
    case (Inl e)
    with Pair assms show ?thesis
      by (simp add: loadComponent_def bindIO_def tryIO_def returnIO_def)
  next
    case (Inr raw)
    show ?thesis
    proof (cases "JSON_parse env raw")
      case None
      with Pair Inr assms(2) show ?thesis
        by (simp add: loadComponent_def bindIO_def tryIO_def returnIO_def throwIO_def)
    next
      case (Some manifest)
      show ?thesis
      proof (cases "files manifest")
        case None
        with Pair Inr Some assms(2) show ?thesis
          by (simp add: loadComponent_def bindIO_def tryIO_def returnIO_def throwIO_def)
      next
        case (Some fileNames)
        let ?lay1 = "lay\<lparr>manifests := AList.update (name manifest) manifest (manifests lay)\<rparr>"
        from Pair Inr \<open>JSON_parse env raw = Some manifest\<close> Some assms(2)
        have loop: "forEachIO (loadFile dir entry manifest) fileNames ?lay1 w1 = (Inr lay', w')"
          by (simp add: loadComponent_def bindIO_def tryIO_def returnIO_def)
        from assms(1) have start: "ownersKnown ?lay1 \<and> map_of (manifests ?lay1) (name manifest) \<noteq> None"
          by (simp add: ownersKnown_def update_conv')
        have "ownersKnown lay' \<and> map_of (manifests lay') (name manifest) \<noteq> None"
          by (rule forEachIO_invariant [where P = "\<lambda>l. ownersKnown l \<and> map_of (manifests l) (name manifest) \<noteq> None",
                OF _ start loop]) (rule loadFile_owners)
        then show ?thesis by simp
      qed
    qed
  qed
qed

lemma loadType_owners:
  assumes "ownersKnown lay" and "loadType env typeDir lay w = (Inr lay', w')"
  shows "ownersKnown lay'"
proof (cases "readdir (join (COMPONENTS_DIR env) [typeDir]) w")
  case (Pair r w1)
  show ?thesis
  proof (cases r)
    case (Inl e)
    with Pair assms show ?thesis
      by (simp add: loadType_def Let_def bindIO_def tryIO_def returnIO_def)
  next
    case (Inr es)
    with Pair assms(2)
    have loop: "forEachIO (loadComponent env (join (COMPONENTS_DIR env) [typeDir])) es lay w1 = (Inr lay', w')"
      by (simp add: loadType_def Let_def bindIO_def tryIO_def returnIO_def)
    show ?thesis
      by (rule forEachIO_invariant [where P = ownersKnown, OF _ assms(1) loop]) (rule loadComponent_owners)
  qed
qed

lemma loadLayout_owners:
  assumes "loadLayout env w = (Inr lay, w')"
  shows "ownersKnown lay"
proof (rule forEachIO_invariant [where P = ownersKnown, OF _ _ assms [unfolded loadLayout_def]])
  show "ownersKnown \<lparr>installedFiles = [], manifests = [], fileContents = []\<rparr>"
    by (simp add: ownersKnown_def)
qed (rule loadType_owners)

text \<open>Every installed file has its source in \<open>fileContents\<close>.\<close>

definition sourcesKnown :: "layout \<Rightarrow> bool" where
  "sourcesKnown lay = (\<forall>installed \<in> set (installedFiles lay). map_of (fileContents lay) (fst installed) \<noteq> None)"

lemma loadFile_sources:
  assumes "sourcesKnown lay" and "loadFile dir entry manifest fileName lay w = (Inr lay', w')"
  shows "sourcesKnown lay'"
proof -
  let ?p = "typeToDir (type manifest) @ ''/'' @ fileName"
  from assms(2) obtain source where
    lay': "lay' = lay\<lparr>installedFiles := AList.update ?p (name manifest) (installedFiles lay),
                      fileContents := AList.update ?p source (fileContents lay)\<rparr>"
    by (auto simp: loadFile_def Let_def bindIO_def returnIO_def readFile_def split: option.splits)
  have "map_of (AList.update ?p source (fileContents lay)) (fst installed) \<noteq> None"
    if "installed \<in> set (AList.update ?p (name manifest) (installedFiles lay))" for installed
  proof -
    from that set_update_subset
    have "installed = (?p, name manifest) \<or> installed \<in> set (installedFiles lay)"
      by fastforce
    with assms(1) show ?thesis
      by (auto simp: sourcesKnown_def update_conv')
  qed
  then show ?thesis by (simp add: lay' sourcesKnown_def)
qed

lemma loadComponent_sources:
  assumes "sourcesKnown lay" and "loadComponent env dir entry lay w = (Inr lay', w')"
  shows "sourcesKnown lay'"
proof (cases "readFile (join dir [entry, ''manifest.json'']) w")
  case (Pair r w1)
  show ?thesis
  proof (cases r)
    case (Inl e)
    with Pair assms show ?thesis
      by (simp add: loadComponent_def bindIO_def tryIO_def returnIO_def)
  next
    case (Inr raw)
    show ?thesis
    proof (cases "JSON_parse env raw")
      case None
      with Pair Inr assms(2) show ?thesis
        by (simp add: loadComponent_def bindIO_def tryIO_def returnIO_def throwIO_def)
    next
      case (Some manifest)
      show ?thesis
      proof (cases "files manifest")
        case None
        with Pair Inr Some assms(2) show ?thesis
          by (simp add: loadComponent_def bindIO_def tryIO_def returnIO_def throwIO_def)
      next
        case (Some fileNames)
        let ?lay1 = "lay\<lparr>manifests := AList.update (name manifest) manifest (manifests lay)\<rparr>"
        from Pair Inr \<open>JSON_parse env raw = Some manifest\<close> Some assms(2)
        have loop: "forEachIO (loadFile dir entry manifest) fileNames ?lay1 w1 = (Inr lay', w')"
          by (simp add: loadComponent_def bindIO_def tryIO_def returnIO_def)
        from assms(1) have start: "sourcesKnown ?lay1" by (simp add: sourcesKnown_def)
        show ?thesis
          by (rule forEachIO_invariant [where P = sourcesKnown, OF _ start loop]) (rule loadFile_sources)
      qed
    qed
  qed
qed

lemma loadType_sources:
  assumes "sourcesKnown lay" and "loadType env typeDir lay w = (Inr lay', w')"
  shows "sourcesKnown lay'"
proof (cases "readdir (join (COMPONENTS_DIR env) [typeDir]) w")
  case (Pair r w1)
  show ?thesis
  proof (cases r)
    case (Inl e)
    with Pair assms show ?thesis
      by (simp add: loadType_def Let_def bindIO_def tryIO_def returnIO_def)
  next
    case (Inr es)
    with Pair assms(2)
    have loop: "forEachIO (loadComponent env (join (COMPONENTS_DIR env) [typeDir])) es lay w1 = (Inr lay', w')"
      by (simp add: loadType_def Let_def bindIO_def tryIO_def returnIO_def)
    show ?thesis
      by (rule forEachIO_invariant [where P = sourcesKnown, OF _ assms(1) loop]) (rule loadComponent_sources)
  qed
qed

lemma loadLayout_sources:
  assumes "loadLayout env w = (Inr lay, w')" and "(installedPath, componentName) \<in> set (installedFiles lay)"
  shows "\<exists>source. map_of (fileContents lay) installedPath = Some source"
proof -
  have "sourcesKnown lay"
  proof (rule forEachIO_invariant [where P = sourcesKnown, OF _ _ assms(1) [unfolded loadLayout_def]])
    show "sourcesKnown \<lparr>installedFiles = [], manifests = [], fileContents = []\<rparr>"
      by (simp add: sourcesKnown_def)
  qed (rule loadType_sources)
  with assms(2) show ?thesis by (auto simp: sourcesKnown_def)
qed

text \<open>What a loop of phase 2 or 3 prints is added at the end of what was printed.\<close>

lemma forEachR_thrown:
  assumes "\<And>x s. x \<in> set xs \<Longrightarrow> thrown (body x s) = thrown s"
  shows "thrown (forEachR body xs st) = thrown st"
  using assms by (induction xs arbitrary: st) simp_all

lemma forEachR_prefix:
  assumes "\<And>x s. prefix (out s) (out (body x s))"
  shows "prefix (out st) (out (forEachR body xs st))"
proof (induction xs arbitrary: st)
  case Nil
  show ?case by simp
next
  case (Cons x xs)
  show ?case
  proof (cases "thrown st")
    case None
    from assms [of st x] Cons.IH [of "body x st"]
    have "prefix (out st) (out (forEachR body xs (body x st)))" by (rule prefix_order.trans)
    with None show ?thesis by simp
  next
    case (Some e)
    then show ?thesis by simp
  qed
qed

lemma sublist_prefix:
  assumes "sublist b xs" and "prefix xs ys"
  shows "sublist b ys"
proof -
  from assms(1) obtain ps ss where "xs = ps @ b @ ss" by (auto simp: sublist_def)
  moreover from assms(2) obtain zs where "ys = xs @ zs" by (auto simp: prefix_def)
  ultimately have "ys = ps @ b @ (ss @ zs)" by simp
  then show ?thesis unfolding sublist_def by blast
qed

lemma forEachR_sublist:
  assumes x: "x \<in> set xs"
    and st: "thrown st = None"
    and keep: "\<And>y s. y \<in> set xs \<Longrightarrow> thrown (body y s) = thrown s"
    and grow: "\<And>y s. prefix (out s) (out (body y s))"
    and here: "\<And>s. thrown s = None \<Longrightarrow> sublist b (out (body x s))"
  shows "sublist b (out (forEachR body xs st))"
  using x st keep
proof (induction xs arbitrary: st)
  case Nil
  then show ?case by simp
next
  case (Cons y ys)
  from Cons.prems(3) have keep': "\<And>z s. z \<in> set ys \<Longrightarrow> thrown (body z s) = thrown s"
    by simp
  from Cons.prems(2,3) have next_st: "thrown (body y st) = None" by simp
  show ?case
  proof (cases "x = y")
    case True
    from here [OF Cons.prems(2)] True have "sublist b (out (body y st))" by simp
    moreover have "prefix (out (body y st)) (out (forEachR body ys (body y st)))"
      by (rule forEachR_prefix) (rule grow)
    ultimately have "sublist b (out (forEachR body ys (body y st)))" by (rule sublist_prefix)
    with Cons.prems(2) show ?thesis by simp
  next
    case False
    with Cons.prems(1) have "x \<in> set ys" by simp
    from Cons.IH [OF this next_st keep'] Cons.prems(2) show ?thesis by simp
  qed
qed

lemma thrown_checkAliasImport:
  "thrown (checkAliasImport lay componentName installedPath imported st) = thrown st"
  by (simp add: checkAliasImport_def Let_def)

lemma prefix_checkAliasImport:
  "prefix (out st) (out (checkAliasImport lay componentName installedPath imported st))"
  by (simp add: checkAliasImport_def Let_def)

lemma thrown_suggest:
  "map_of (manifests lay) componentName \<noteq> None \<Longrightarrow>
   thrown (suggest lay componentName candidate st) = thrown st"
  by (auto simp: suggest_def Let_def)

lemma prefix_suggest: "prefix (out st) (out (suggest lay componentName candidate st))"
  by (simp add: suggest_def Let_def split: option.splits)

lemma thrown_checkRelativeImport:
  assumes "map_of (manifests lay) componentName \<noteq> None"
  shows "thrown (checkRelativeImport env lay componentName installedPath importPath st) = thrown st"
proof -
  have "thrown (forEachR (suggest lay componentName) cs s) = thrown s" for cs s
    by (rule forEachR_thrown) (rule thrown_suggest [OF assms])
  then show ?thesis by (simp add: checkRelativeImport_def Let_def)
qed

lemma prefix_checkRelativeImport:
  "prefix (out st) (out (checkRelativeImport env lay componentName installedPath importPath st))"
proof -
  let ?st2 = "st\<lparr>importsChecked := Suc (importsChecked st), errors := Suc (errors st),
      out := out st @ [ErrorAt componentName installedPath,
                       NotInRegistry importPath (resolveImportToFile env importPath installedPath)]\<rparr>"
  have unresolved: "prefix (out st) (out (forEachR (suggest lay componentName) cs ?st2))" for cs
  proof -
    have "prefix (out ?st2) (out (forEachR (suggest lay componentName) cs ?st2))"
      by (rule forEachR_prefix) (rule prefix_suggest)
    then have "prefix (out st @ [ErrorAt componentName installedPath,
        NotInRegistry importPath (resolveImportToFile env importPath installedPath)])
        (out (forEachR (suggest lay componentName) cs ?st2))" by simp
    then show ?thesis by (rule append_prefixD)
  qed
  have more: "prefix xs ys \<Longrightarrow> prefix xs (ys @ zs)" for xs ys zs :: "line list"
    by (rule prefix_order.trans [OF _ prefixI [OF refl]])
  show ?thesis
    by (simp add: checkRelativeImport_def Let_def unresolved more)
qed

lemma thrown_checkFile:
  assumes "map_of (manifests lay) (snd installed) \<noteq> None"
  shows "thrown (checkFile env lay installed st) = thrown st"
proof -
  have "thrown (forEachR (checkRelativeImport env lay (snd installed) (fst installed)) rs
      (forEachR (checkAliasImport lay (snd installed) (fst installed)) as s)) = thrown s" for rs as s
    by (simp add: forEachR_thrown thrown_checkAliasImport thrown_checkRelativeImport [OF assms])
  then show ?thesis by (simp add: checkFile_def Let_def)
qed

lemma prefix_checkFile: "prefix (out st) (out (checkFile env lay installed st))"
proof -
  have "prefix (out s) (out (forEachR (checkRelativeImport env lay (snd installed) (fst installed)) rs
      (forEachR (checkAliasImport lay (snd installed) (fst installed)) as s)))" for rs as s
    by (rule prefix_order.trans [OF forEachR_prefix forEachR_prefix])
       (rule prefix_checkAliasImport, rule prefix_checkRelativeImport)
  from this [of "st\<lparr>filesChecked := Suc (filesChecked st)\<rparr>"]
  show ?thesis by (simp add: checkFile_def Let_def)
qed

lemma prefix_checkDependencies: "prefix (out st) (out (checkDependencies lay entry st))"
  unfolding checkDependencies_def
  by (rule forEachR_prefix) (simp add: checkDependency_def)

text \<open>What phase 2 prints at some file stands in what the run prints.\<close>

lemma validate_sublist:
  assumes known: "ownersKnown lay"
    and inst: "installed \<in> set (installedFiles lay)"
    and here: "\<And>s. thrown s = None \<Longrightarrow> sublist b (out (checkFile env lay installed s))"
  shows "sublist b (out (validate env lay))"
proof -
  let ?st0 = "\<lparr>errors = 0, filesChecked = 0, importsChecked = 0, out = [], thrown = None\<rparr>"
  have "sublist b (out (forEachR (checkFile env lay) (installedFiles lay) ?st0))"
  proof (rule forEachR_sublist [where body = "checkFile env lay" and x = installed])
    show "installed \<in> set (installedFiles lay)" by (rule inst)
    show "thrown ?st0 = None" by simp
    show "thrown (checkFile env lay y s) = thrown s" if "y \<in> set (installedFiles lay)" for y s
    proof -
      from known that have "map_of (manifests lay) (snd y) \<noteq> None" by (simp add: ownersKnown_def)
      then show ?thesis by (rule thrown_checkFile)
    qed
    show "prefix (out s) (out (checkFile env lay y s))" for y s by (rule prefix_checkFile)
    show "sublist b (out (checkFile env lay installed s))" if "thrown s = None" for s
      using that by (rule here)
  qed
  moreover have "prefix (out (forEachR (checkFile env lay) (installedFiles lay) ?st0)) (out (validate env lay))"
    unfolding validate_def by (rule forEachR_prefix) (rule prefix_checkDependencies)
  ultimately show ?thesis by (rule sublist_prefix)
qed

lemma main_console:
  assumes "loadLayout env w = (Inr lay, w1)"
  shows "\<exists>rest. console (snd (main env w)) = console w1 @ out (validate env lay) @ rest"
  using assms by (simp add: main_def Let_def split: option.splits)

lemma runValidate_sublist:
  assumes load: "loadLayout env \<lparr>disk = d, console = []\<rparr> = (Inr lay, w1)"
    and inst: "installed \<in> set (installedFiles lay)"
    and here: "\<And>s. thrown s = None \<Longrightarrow> sublist b (out (checkFile env lay installed s))"
  shows "sublist b (console (snd (runValidate env d)))"
proof -
  from loadLayout_owners [OF load] have "ownersKnown lay" .
  from validate_sublist [OF this inst here] have "sublist b (out (validate env lay))" .
  then obtain pre post where "out (validate env lay) = pre @ b @ post"
    by (auto simp: sublist_def)
  moreover from main_console [OF load] obtain rest where
    "console (snd (runValidate env d)) = console w1 @ out (validate env lay) @ rest"
    by (auto simp: runValidate_def)
  ultimately have "console (snd (runValidate env d)) = (console w1 @ pre) @ b @ (post @ rest)"
    by simp
  then show ?thesis unfolding sublist_def by blast
qed

lemma runValidate_finding_status:
  assumes "sublist (ErrorAt componentName installedPath # ls) (console (snd (runValidate env d)))"
  shows "fst (runValidate env d) = 1"
proof -
  from assms have "ErrorAt componentName installedPath \<in> set (console (snd (runValidate env d)))"
    by (auto simp: sublist_def)
  moreover have "isFinding (ErrorAt componentName installedPath)" by simp
  ultimately have "\<exists>l \<in> set (console (snd (runValidate env d))). isFinding l \<or> isThrew l"
    by blast
  moreover have "fst (runValidate env d)
    = (if \<exists>l \<in> set (console (snd (runValidate env d))). isFinding l \<or> isThrew l then 1 else 0)"
    unfolding runValidate_def by (rule main_status) simp
  ultimately show ?thesis by simp
qed

text \<open>
  C1, amended: let the installed-layout map be the one phase 1 builds; it holds a
  source for every installed path (\<open>loadLayout_sources\<close>). For every file of it with
  the extension \<open>.ts\<close> and every relative import that the pattern of the validator
  extracts from its source (\<open>import\<close> or \<open>export\<close>, white space, any text, white
  space, \<open>from\<close>, white space, and a quoted specifier that starts with a dot): when
  the directory of the resolved target differs from the directory of the file and is
  one of the four type directories, the run prints the finding of a cross-type import
  for this file and this import, and ends with status 1. Nothing is assumed on the
  resolved target being a key of the map. An import the pattern does not extract is
  not examined.
\<close>

theorem cross_type_relative_import_flagged:
  assumes load: "loadLayout env \<lparr>disk = d, console = []\<rparr> = (Inr lay, w1)"
    and inst: "(installedPath, componentName) \<in> set (installedFiles lay)"
    and ts: "extname installedPath = ''.ts''"
    and src: "map_of (fileContents lay) installedPath = Some source"
    and imp: "importPath \<in> set (extractRelativeImports source)"
    and differs: "dirname (resolveImportToFile env importPath installedPath) \<noteq> dirname installedPath"
    and typeDir: "dirname (resolveImportToFile env importPath installedPath) \<in> set knownAliasTypes"
  shows "sublist
           [ErrorAt componentName installedPath,
            CrossTypeImport importPath,
            HintUseAlias (dirname (resolveImportToFile env importPath installedPath))
              (replaceFirst ''.ts'' ''.js''
                 (last (splitOn CHR ''/'' (resolveImportToFile env importPath installedPath)))),
            EmptyLine]
           (console (snd (runValidate env d)))
         \<and> fst (runValidate env d) = 1"
proof -
  let ?b = "[ErrorAt componentName installedPath,
            CrossTypeImport importPath,
            HintUseAlias (dirname (resolveImportToFile env importPath installedPath))
              (replaceFirst ''.ts'' ''.js''
                 (last (splitOn CHR ''/'' (resolveImportToFile env importPath installedPath)))),
            EmptyLine]"
  from loadLayout_owners [OF load] inst
  have owner: "map_of (manifests lay) componentName \<noteq> None"
    by (auto simp: ownersKnown_def)
  have atFile: "sublist ?b (out (checkFile env lay (installedPath, componentName) s))"
    if s: "thrown s = None" for s
  proof -
    let ?s2 = "forEachR (checkAliasImport lay componentName installedPath)
                 (extractKitnAliasImports source) (s\<lparr>filesChecked := Suc (filesChecked s)\<rparr>)"
    have s2: "thrown ?s2 = None"
      using s by (simp add: forEachR_thrown thrown_checkAliasImport)
    have "sublist ?b (out (forEachR (checkRelativeImport env lay componentName installedPath)
        (extractRelativeImports source) ?s2))"
    proof (rule forEachR_sublist [where body = "checkRelativeImport env lay componentName installedPath"
          and x = importPath])
      show "importPath \<in> set (extractRelativeImports source)" by (rule imp)
      show "thrown ?s2 = None" by (rule s2)
      show "thrown (checkRelativeImport env lay componentName installedPath y t) = thrown t" for y t
        by (rule thrown_checkRelativeImport [OF owner])
      show "prefix (out t) (out (checkRelativeImport env lay componentName installedPath y t))" for y t
        by (rule prefix_checkRelativeImport)
      show "sublist ?b (out (checkRelativeImport env lay componentName installedPath importPath t))" for t
        using differs typeDir by (simp add: checkRelativeImport_def Let_def)
    qed
    with ts src show ?thesis by (simp add: checkFile_def Let_def)
  qed
  have "sublist ?b (console (snd (runValidate env d)))"
    by (rule runValidate_sublist [OF load inst]) (rule atFile)
  moreover from this have "fst (runValidate env d) = 1" by (rule runValidate_finding_status)
  ultimately show ?thesis by simp
qed

text \<open>
  C2, amended: for every file of the installed-layout map with the extension \<open>.ts\<close>
  and every alias import that the pattern of the validator extracts from its source
  (\<open>import\<close> or \<open>export\<close>, white space, any text, white space, \<open>from\<close>, white
  space, and the quoted specifier \<open>@kitn/<type>/<sub-path>\<close>) and whose type is one of
  the four type directories: when \<open><type>/<sub-path>\<close>, its final \<open>.js\<close> replaced by
  \<open>.ts\<close>, is no key of the map, the run prints the finding of an unresolved reference
  and ends with status 1. The finding is its head, its message and an empty line: no
  suggestion is printed for an alias import. An alias import the pattern does not
  extract, or of another type, is not examined.
\<close>

theorem unresolved_alias_import_flagged:
  assumes load: "loadLayout env \<lparr>disk = d, console = []\<rparr> = (Inr lay, w1)"
    and inst: "(installedPath, componentName) \<in> set (installedFiles lay)"
    and ts: "extname installedPath = ''.ts''"
    and src: "map_of (fileContents lay) installedPath = Some source"
    and imp: "(t, sub) \<in> set (extractKitnAliasImports source)"
    and missing: "map_of (installedFiles lay) (jsToTs (t @ ''/'' @ sub)) = None"
  shows "sublist
           [ErrorAt componentName installedPath,
            AliasNotInRegistry t sub (jsToTs (t @ ''/'' @ sub)),
            EmptyLine]
           (console (snd (runValidate env d)))
         \<and> fst (runValidate env d) = 1"
proof -
  let ?b = "[ErrorAt componentName installedPath,
            AliasNotInRegistry t sub (jsToTs (t @ ''/'' @ sub)),
            EmptyLine]"
  have atFile: "sublist ?b (out (checkFile env lay (installedPath, componentName) s))"
    if s: "thrown s = None" for s
  proof -
    let ?s1 = "s\<lparr>filesChecked := Suc (filesChecked s)\<rparr>"
    let ?s2 = "forEachR (checkAliasImport lay componentName installedPath)
                 (extractKitnAliasImports source) ?s1"
    have "sublist ?b (out ?s2)"
    proof (rule forEachR_sublist [where body = "checkAliasImport lay componentName installedPath"
          and x = "(t, sub)"])
      show "(t, sub) \<in> set (extractKitnAliasImports source)" by (rule imp)
      show "thrown ?s1 = None" using s by simp
      show "thrown (checkAliasImport lay componentName installedPath y u) = thrown u" for y u
        by (rule thrown_checkAliasImport)
      show "prefix (out u) (out (checkAliasImport lay componentName installedPath y u))" for y u
        by (rule prefix_checkAliasImport)
      show "sublist ?b (out (checkAliasImport lay componentName installedPath (t, sub) u))" for u
        using missing by (simp add: checkAliasImport_def Let_def)
    qed
    moreover have "prefix (out ?s2) (out (forEachR (checkRelativeImport env lay componentName installedPath)
        (extractRelativeImports source) ?s2))"
      by (rule forEachR_prefix) (rule prefix_checkRelativeImport)
    ultimately have "sublist ?b (out (forEachR (checkRelativeImport env lay componentName installedPath)
        (extractRelativeImports source) ?s2))"
      by (rule sublist_prefix)
    with ts src show ?thesis by (simp add: checkFile_def Let_def)
  qed
  have "sublist ?b (console (snd (runValidate env d)))"
    by (rule runValidate_sublist [OF load inst]) (rule atFile)
  moreover from this have "fst (runValidate env d) = 1" by (rule runValidate_finding_status)
  ultimately show ?thesis by simp
qed

section \<open>Runs of the validator\<close>

text \<open>
  Two repositories. In the first, the tool \<open>x\<close> imports the file of the agent \<open>y\<close> by
  a relative path; in the second, the agent \<open>greeter\<close> imports \<open>@kitn/tools/missing.js\<close>,
  which no component installs, while the agent \<open>other\<close> has a file \<open>missing.ts\<close>.
\<close>

definition quoted :: "string \<Rightarrow> string" where
  "quoted s = CHR 0x22 # s @ [CHR 0x22]"

definition xSource :: string where
  "xSource = ''import { y } from '' @ quoted ''../agents/y.js'' @ '';''"

definition greeterSource :: string where
  "greeterSource = ''import { m } from '' @ quoted ''@kitn/tools/missing.js'' @ '';''"

definition crossTypeDisk :: filesystem where
  "crossTypeDisk =
     \<lparr>regular =
        [[''repo'', ''components'', ''tools'', ''x'', ''manifest.json''] \<mapsto> ''x manifest'',
         [''repo'', ''components'', ''tools'', ''x'', ''x.ts''] \<mapsto> xSource,
         [''repo'', ''components'', ''agents'', ''y'', ''manifest.json''] \<mapsto> ''y manifest'',
         [''repo'', ''components'', ''agents'', ''y'', ''y.ts''] \<mapsto> ''export const y = 1;''],
      dirs =
        [[''repo'', ''components'', ''agents''] \<mapsto> [''y''],
         [''repo'', ''components'', ''tools''] \<mapsto> [''x'']]\<rparr>"

definition crossTypeLayout :: layout where
  "crossTypeLayout =
     \<lparr>installedFiles = [(''agents/y.ts'', ''y''), (''tools/x.ts'', ''x'')],
      manifests = [(''y'', manifestOf ''y'' KitnAgent [''y.ts''] ''1.0.0''),
                   (''x'', manifestOf ''x'' KitnTool [''x.ts''] ''1.0.0'')],
      fileContents = [(''agents/y.ts'', ''export const y = 1;''), (''tools/x.ts'', xSource)]\<rparr>"

lemma manifestOf_fields:
  "name (manifestOf n t fileNames v) = n" "type (manifestOf n t fileNames v) = t"
  "files (manifestOf n t fileNames v) = Some fileNames"
  "registryDependencies (manifestOf n t fileNames v) = None"
  "version (manifestOf n t fileNames v) = Some v"
  by (simp_all add: manifestOf_def)

lemmas load_defs = loadLayout_def typeDirs_def loadType_def loadComponent_def loadFile_def
  io_defs path_defs Let_def sampleEnv_fields sampleManifests_def manifestOf_fields

lemma crossType_load:
  "loadLayout sampleEnv \<lparr>disk = crossTypeDisk, console = []\<rparr>
     = (Inr crossTypeLayout, \<lparr>disk = crossTypeDisk, console = []\<rparr>)"
  by (simp add: load_defs crossTypeDisk_def crossTypeLayout_def)

lemma xSource_imports: "extractRelativeImports xSource = [''../agents/y.js'']"
  by (simp add: extractRelativeImports.simps relativePattern_def xSource_def quoted_def
        isSpace_def isQuote_def)

lemma x_target: "resolveImportToFile sampleEnv ''../agents/y.js'' ''tools/x.ts'' = ''agents/y.ts''"
  by (simp add: resolveImportToFile_def resolve_def dirname_def normalizeString_def
        normalizeSegments_def normalizeStep_def jsToTs_def endsWith_def sampleEnv_fields)

theorem cross_type_relative_import_flagged_witness:
  "sublist
     [ErrorAt ''x'' ''tools/x.ts'', CrossTypeImport ''../agents/y.js'',
      HintUseAlias ''agents'' ''y.js'', EmptyLine]
     (console (snd (runValidate sampleEnv crossTypeDisk)))
   \<and> fst (runValidate sampleEnv crossTypeDisk) = 1
   \<and> map_of (installedFiles crossTypeLayout) ''agents/y.ts'' = Some ''y''"
proof -
  have inst: "(''tools/x.ts'', ''x'') \<in> set (installedFiles crossTypeLayout)"
    by (simp add: crossTypeLayout_def)
  have ts: "extname ''tools/x.ts'' = ''.ts''"
    by (simp add: extname_def)
  have src: "map_of (fileContents crossTypeLayout) ''tools/x.ts'' = Some xSource"
    by (simp add: crossTypeLayout_def)
  have imp: "''../agents/y.js'' \<in> set (extractRelativeImports xSource)"
    by (simp add: xSource_imports)
  have differs: "dirname (resolveImportToFile sampleEnv ''../agents/y.js'' ''tools/x.ts'') \<noteq> dirname ''tools/x.ts''"
    by (simp add: x_target dirname_def)
  have typeDir: "dirname (resolveImportToFile sampleEnv ''../agents/y.js'' ''tools/x.ts'') \<in> set knownAliasTypes"
    by (simp add: x_target dirname_def knownAliasTypes_def)
  from cross_type_relative_import_flagged [OF crossType_load inst ts src imp differs typeDir]
  show ?thesis
    by (simp add: x_target dirname_def crossTypeLayout_def)
qed

text \<open>
  The first repository again, the file of \<open>x\<close> having another source: an import for
  its side effects, and an import written without white space.
\<close>

definition sideEffectSource :: string where
  "sideEffectSource = ''import '' @ quoted ''../agents/y.js'' @ '';''"

definition compactSource :: string where
  "compactSource = ''import{y}from'' @ quoted ''../agents/y.js'' @ '';''"

definition importerDisk :: "string \<Rightarrow> filesystem" where
  "importerDisk source =
     \<lparr>regular =
        [[''repo'', ''components'', ''tools'', ''x'', ''manifest.json''] \<mapsto> ''x manifest'',
         [''repo'', ''components'', ''tools'', ''x'', ''x.ts''] \<mapsto> source,
         [''repo'', ''components'', ''agents'', ''y'', ''manifest.json''] \<mapsto> ''y manifest'',
         [''repo'', ''components'', ''agents'', ''y'', ''y.ts''] \<mapsto> ''export const y = 1;''],
      dirs =
        [[''repo'', ''components'', ''agents''] \<mapsto> [''y''],
         [''repo'', ''components'', ''tools''] \<mapsto> [''x'']]\<rparr>"

definition importerLayout :: "string \<Rightarrow> layout" where
  "importerLayout source =
     \<lparr>installedFiles = [(''agents/y.ts'', ''y''), (''tools/x.ts'', ''x'')],
      manifests = [(''y'', manifestOf ''y'' KitnAgent [''y.ts''] ''1.0.0''),
                   (''x'', manifestOf ''x'' KitnTool [''x.ts''] ''1.0.0'')],
      fileContents = [(''agents/y.ts'', ''export const y = 1;''), (''tools/x.ts'', source)]\<rparr>"

lemma importer_load:
  "loadLayout sampleEnv \<lparr>disk = importerDisk source, console = []\<rparr>
     = (Inr (importerLayout source), \<lparr>disk = importerDisk source, console = []\<rparr>)"
  by (simp add: load_defs importerDisk_def importerLayout_def)

lemma y_aliases: "extractKitnAliasImports ''export const y = 1;'' = []"
  by (simp add: extractKitnAliasImports.simps aliasPattern_def isSpace_def isQuote_def isWord_def)

lemma y_relatives: "extractRelativeImports ''export const y = 1;'' = []"
  by (simp add: extractRelativeImports.simps relativePattern_def isSpace_def isQuote_def)

lemma importer_run:
  assumes "extractKitnAliasImports source = []" and "extractRelativeImports source = []"
  shows "runValidate sampleEnv (importerDisk source)
     = (0, \<lparr>disk = importerDisk source, console = [Validated 2 0 2, AllImportsResolve]\<rparr>)"
proof -
  have "validate sampleEnv (importerLayout source) =
     \<lparr>errors = 0, filesChecked = 2, importsChecked = 0, out = [], thrown = None\<rparr>"
    by (simp add: validate_def checkFile_def checkDependencies_def importerLayout_def
          extname_def Let_def assms y_aliases y_relatives manifestOf_fields)
  then show ?thesis
    by (simp add: runValidate_def main_def importer_load) (simp add: importerLayout_def)
qed

lemma sideEffect_extracted:
  "extractKitnAliasImports sideEffectSource = []" "extractRelativeImports sideEffectSource = []"
  by (simp_all add: extractKitnAliasImports.simps extractRelativeImports.simps aliasPattern_def
        relativePattern_def sideEffectSource_def quoted_def isSpace_def isQuote_def isWord_def)

lemma compact_extracted:
  "extractKitnAliasImports compactSource = []" "extractRelativeImports compactSource = []"
  by (simp_all add: extractKitnAliasImports.simps extractRelativeImports.simps aliasPattern_def
        relativePattern_def compactSource_def quoted_def isSpace_def isQuote_def isWord_def)

text \<open>
  C1 as stated fails: the file \<open>tools/x.ts\<close> contains the relative import of
  \<open>../agents/y.js\<close>, which resolves into the type directory \<open>agents\<close>, and the run
  prints no finding and ends with status 0, when the import is one for its side
  effects and when it is written without white space.
\<close>

theorem cross_type_import_not_extracted_counterexample:
  "loadLayout sampleEnv \<lparr>disk = importerDisk sideEffectSource, console = []\<rparr>
     = (Inr (importerLayout sideEffectSource), \<lparr>disk = importerDisk sideEffectSource, console = []\<rparr>)
   \<and> map_of (fileContents (importerLayout sideEffectSource)) ''tools/x.ts''
       = Some (''import '' @ [CHR 0x22] @ ''../agents/y.js'' @ [CHR 0x22] @ '';'')
   \<and> map_of (fileContents (importerLayout compactSource)) ''tools/x.ts''
       = Some (''import{y}from'' @ [CHR 0x22] @ ''../agents/y.js'' @ [CHR 0x22] @ '';'')
   \<and> extname ''tools/x.ts'' = ''.ts''
   \<and> dirname (resolveImportToFile sampleEnv ''../agents/y.js'' ''tools/x.ts'') = ''agents''
   \<and> dirname ''tools/x.ts'' = ''tools''
   \<and> ''agents'' \<in> set knownAliasTypes
   \<and> runValidate sampleEnv (importerDisk sideEffectSource)
       = (0, \<lparr>disk = importerDisk sideEffectSource, console = [Validated 2 0 2, AllImportsResolve]\<rparr>)
   \<and> runValidate sampleEnv (importerDisk compactSource)
       = (0, \<lparr>disk = importerDisk compactSource, console = [Validated 2 0 2, AllImportsResolve]\<rparr>)"
  by (simp add: importer_load importer_run sideEffect_extracted compact_extracted x_target
        dirname_def extname_def knownAliasTypes_def)
     (simp add: importerLayout_def sideEffectSource_def compactSource_def quoted_def)

text \<open>The second repository.\<close>

definition aliasDisk :: filesystem where
  "aliasDisk =
     \<lparr>regular =
        [[''repo'', ''components'', ''agents'', ''greeter'', ''manifest.json''] \<mapsto> ''greeter manifest'',
         [''repo'', ''components'', ''agents'', ''greeter'', ''greeter.ts''] \<mapsto> greeterSource,
         [''repo'', ''components'', ''agents'', ''other'', ''manifest.json''] \<mapsto> ''other manifest'',
         [''repo'', ''components'', ''agents'', ''other'', ''missing.ts''] \<mapsto> ''export const m = 1;''],
      dirs = [[''repo'', ''components'', ''agents''] \<mapsto> [''greeter'', ''other'']]\<rparr>"

definition aliasLayout :: layout where
  "aliasLayout =
     \<lparr>installedFiles = [(''agents/greeter.ts'', ''greeter''), (''agents/missing.ts'', ''other'')],
      manifests = [(''greeter'', manifestOf ''greeter'' KitnAgent [''greeter.ts''] ''1.0.0''),
                   (''other'', manifestOf ''other'' KitnAgent [''missing.ts''] ''1.0.0'')],
      fileContents = [(''agents/greeter.ts'', greeterSource),
                      (''agents/missing.ts'', ''export const m = 1;'')]\<rparr>"

lemma alias_load:
  "loadLayout sampleEnv \<lparr>disk = aliasDisk, console = []\<rparr>
     = (Inr aliasLayout, \<lparr>disk = aliasDisk, console = []\<rparr>)"
  by (simp add: load_defs aliasDisk_def aliasLayout_def)

lemma greeterSource_aliases: "extractKitnAliasImports greeterSource = [(''tools'', ''missing.js'')]"
  by (simp add: extractKitnAliasImports.simps aliasPattern_def greeterSource_def quoted_def
        isSpace_def isQuote_def isWord_def knownAliasTypes_def)

lemma greeterSource_relatives: "extractRelativeImports greeterSource = []"
  by (simp add: extractRelativeImports.simps relativePattern_def greeterSource_def quoted_def
        isSpace_def isQuote_def)

lemma missing_aliases: "extractKitnAliasImports ''export const m = 1;'' = []"
  by (simp add: extractKitnAliasImports.simps aliasPattern_def isSpace_def isQuote_def isWord_def)

lemma missing_relatives: "extractRelativeImports ''export const m = 1;'' = []"
  by (simp add: extractRelativeImports.simps relativePattern_def isSpace_def isQuote_def)

lemma alias_validate:
  "validate sampleEnv aliasLayout =
     \<lparr>errors = 1, filesChecked = 2, importsChecked = 1,
      out = [ErrorAt ''greeter'' ''agents/greeter.ts'',
             AliasNotInRegistry ''tools'' ''missing.js'' ''tools/missing.ts'', EmptyLine],
      thrown = None\<rparr>"
  by (simp add: validate_def checkFile_def checkAliasImport_def checkDependencies_def aliasLayout_def
        extname_def Let_def greeterSource_aliases greeterSource_relatives missing_aliases
        missing_relatives jsToTs_def endsWith_def manifestOf_fields)

lemma alias_run:
  "runValidate sampleEnv aliasDisk =
     (1, \<lparr>disk = aliasDisk,
          console = [ErrorAt ''greeter'' ''agents/greeter.ts'',
                     AliasNotInRegistry ''tools'' ''missing.js'' ''tools/missing.ts'', EmptyLine,
                     Validated 2 1 2, ErrorsFound 1]\<rparr>)"
  by (simp add: runValidate_def main_def alias_load alias_validate) (simp add: aliasLayout_def)

text \<open>
  The second repository again, the file of \<open>greeter\<close> having another source: an alias
  import for its side effects, and an alias import of a type that is none of the four.
\<close>

definition sideEffectAliasSource :: string where
  "sideEffectAliasSource = ''import '' @ quoted ''@kitn/tools/missing.js'' @ '';''"

definition otherTypeSource :: string where
  "otherTypeSource = ''import { m } from '' @ quoted ''@kitn/widgets/missing.js'' @ '';''"

definition greeterDisk :: "string \<Rightarrow> filesystem" where
  "greeterDisk source =
     \<lparr>regular =
        [[''repo'', ''components'', ''agents'', ''greeter'', ''manifest.json''] \<mapsto> ''greeter manifest'',
         [''repo'', ''components'', ''agents'', ''greeter'', ''greeter.ts''] \<mapsto> source,
         [''repo'', ''components'', ''agents'', ''other'', ''manifest.json''] \<mapsto> ''other manifest'',
         [''repo'', ''components'', ''agents'', ''other'', ''missing.ts''] \<mapsto> ''export const m = 1;''],
      dirs = [[''repo'', ''components'', ''agents''] \<mapsto> [''greeter'', ''other'']]\<rparr>"

definition greeterLayout :: "string \<Rightarrow> layout" where
  "greeterLayout source =
     \<lparr>installedFiles = [(''agents/greeter.ts'', ''greeter''), (''agents/missing.ts'', ''other'')],
      manifests = [(''greeter'', manifestOf ''greeter'' KitnAgent [''greeter.ts''] ''1.0.0''),
                   (''other'', manifestOf ''other'' KitnAgent [''missing.ts''] ''1.0.0'')],
      fileContents = [(''agents/greeter.ts'', source),
                      (''agents/missing.ts'', ''export const m = 1;'')]\<rparr>"

lemma greeter_load:
  "loadLayout sampleEnv \<lparr>disk = greeterDisk source, console = []\<rparr>
     = (Inr (greeterLayout source), \<lparr>disk = greeterDisk source, console = []\<rparr>)"
  by (simp add: load_defs greeterDisk_def greeterLayout_def)

lemma greeter_run:
  assumes "extractKitnAliasImports source = []" and "extractRelativeImports source = []"
  shows "runValidate sampleEnv (greeterDisk source)
     = (0, \<lparr>disk = greeterDisk source, console = [Validated 2 0 2, AllImportsResolve]\<rparr>)"
proof -
  have "validate sampleEnv (greeterLayout source) =
     \<lparr>errors = 0, filesChecked = 2, importsChecked = 0, out = [], thrown = None\<rparr>"
    by (simp add: validate_def checkFile_def checkDependencies_def greeterLayout_def
          extname_def Let_def assms missing_aliases missing_relatives manifestOf_fields)
  then show ?thesis
    by (simp add: runValidate_def main_def greeter_load) (simp add: greeterLayout_def)
qed

lemma sideEffectAlias_extracted:
  "extractKitnAliasImports sideEffectAliasSource = []"
  "extractRelativeImports sideEffectAliasSource = []"
  by (simp_all add: extractKitnAliasImports.simps extractRelativeImports.simps aliasPattern_def
        relativePattern_def sideEffectAliasSource_def quoted_def isSpace_def isQuote_def isWord_def)

lemma otherType_extracted:
  "extractKitnAliasImports otherTypeSource = []" "extractRelativeImports otherTypeSource = []"
  by (simp_all add: extractKitnAliasImports.simps extractRelativeImports.simps aliasPattern_def
        relativePattern_def otherTypeSource_def quoted_def isSpace_def isQuote_def isWord_def
        knownAliasTypes_def)

text \<open>
  C2 as stated fails, in three ways. The alias import of \<open>greeter\<close> is unresolved and
  the installed path \<open>agents/missing.ts\<close> of \<open>other\<close> has the file name of the
  target, yet the run prints the finding and no suggestion. The same alias imported
  for its side effects is unresolved, and the run prints no finding and ends with
  status 0. So does the run for the alias \<open>@kitn/widgets/missing.js\<close>, whose target
  \<open>widgets/missing.ts\<close> is no key of the map.
\<close>

theorem unresolved_alias_import_counterexample:
  "loadLayout sampleEnv \<lparr>disk = aliasDisk, console = []\<rparr>
     = (Inr aliasLayout, \<lparr>disk = aliasDisk, console = []\<rparr>)
   \<and> map_of (fileContents aliasLayout) ''agents/greeter.ts'' = Some greeterSource
   \<and> extractKitnAliasImports greeterSource = [(''tools'', ''missing.js'')]
   \<and> map_of (installedFiles aliasLayout) ''tools/missing.ts'' = None
   \<and> map_of (installedFiles aliasLayout) ''agents/missing.ts'' = Some ''other''
   \<and> console (snd (runValidate sampleEnv aliasDisk))
       = [ErrorAt ''greeter'' ''agents/greeter.ts'',
          AliasNotInRegistry ''tools'' ''missing.js'' ''tools/missing.ts'', EmptyLine,
          Validated 2 1 2, ErrorsFound 1]
   \<and> \<not> (\<exists>candidatePath candidateName.
           HintDidYouMean candidatePath candidateName \<in> set (console (snd (runValidate sampleEnv aliasDisk))))
   \<and> map_of (fileContents (greeterLayout sideEffectAliasSource)) ''agents/greeter.ts''
       = Some (''import '' @ [CHR 0x22] @ ''@kitn/tools/missing.js'' @ [CHR 0x22] @ '';'')
   \<and> map_of (installedFiles (greeterLayout sideEffectAliasSource)) ''tools/missing.ts'' = None
   \<and> runValidate sampleEnv (greeterDisk sideEffectAliasSource)
       = (0, \<lparr>disk = greeterDisk sideEffectAliasSource,
              console = [Validated 2 0 2, AllImportsResolve]\<rparr>)
   \<and> map_of (fileContents (greeterLayout otherTypeSource)) ''agents/greeter.ts''
       = Some (''import { m } from '' @ [CHR 0x22] @ ''@kitn/widgets/missing.js'' @ [CHR 0x22] @ '';'')
   \<and> map_of (installedFiles (greeterLayout otherTypeSource)) ''widgets/missing.ts'' = None
   \<and> runValidate sampleEnv (greeterDisk otherTypeSource)
       = (0, \<lparr>disk = greeterDisk otherTypeSource, console = [Validated 2 0 2, AllImportsResolve]\<rparr>)"
  by (simp add: alias_load greeterSource_aliases alias_run greeter_run sideEffectAlias_extracted
        otherType_extracted)
     (simp add: aliasLayout_def greeterLayout_def sideEffectAliasSource_def otherTypeSource_def
        quoted_def)

theorem unresolved_alias_import_flagged_witness:
  "sublist
     [ErrorAt ''greeter'' ''agents/greeter.ts'',
      AliasNotInRegistry ''tools'' ''missing.js'' ''tools/missing.ts'', EmptyLine]
     (console (snd (runValidate sampleEnv aliasDisk)))
   \<and> fst (runValidate sampleEnv aliasDisk) = 1"
proof -
  have inst: "(''agents/greeter.ts'', ''greeter'') \<in> set (installedFiles aliasLayout)"
    by (simp add: aliasLayout_def)
  have ts: "extname ''agents/greeter.ts'' = ''.ts''"
    by (simp add: extname_def)
  have src: "map_of (fileContents aliasLayout) ''agents/greeter.ts'' = Some greeterSource"
    by (simp add: aliasLayout_def)
  have imp: "(''tools'', ''missing.js'') \<in> set (extractKitnAliasImports greeterSource)"
    by (simp add: greeterSource_aliases)
  have target: "jsToTs (''tools'' @ ''/'' @ ''missing.js'') = ''tools/missing.ts''"
    by (simp add: jsToTs_def endsWith_def)
  have missing: "map_of (installedFiles aliasLayout) (jsToTs (''tools'' @ ''/'' @ ''missing.js'')) = None"
    unfolding target by (simp add: aliasLayout_def)
  from unresolved_alias_import_flagged [OF alias_load inst ts src imp missing]
  show ?thesis unfolding target .
qed

section \<open>What a build overwrites\<close>

text \<open>
  The file \<open>p\<close> still has its content, or the run has reported a component as built
  whose latest file is \<open>p\<close>.
\<close>

definition kept :: "env \<Rightarrow> path \<Rightarrow> string \<Rightarrow> world \<Rightarrow> bool" where
  "kept env p content w =
     (regular (disk w) p = Some content
      \<or> (\<exists>typeDir n. Built typeDir n \<in> set (console w)
            \<and> join (join (OUTPUT_DIR env) [typeDir]) [n @ ''.json''] = p))"

definition keeps :: "env \<Rightarrow> path \<Rightarrow> string \<Rightarrow> 'a io \<Rightarrow> bool" where
  "keeps env p content m = (\<forall>w. kept env p content w \<longrightarrow> kept env p content (snd (m w)))"

lemma keepsI: "(\<And>w. kept env p content w \<Longrightarrow> kept env p content (snd (m w))) \<Longrightarrow> keeps env p content m"
  by (simp add: keeps_def)

lemma keepsD: "keeps env p content m \<Longrightarrow> kept env p content w \<Longrightarrow> kept env p content (snd (m w))"
  by (simp add: keeps_def)

lemma kept_same:
  assumes "kept env p content w"
    and "regular (disk w') p = regular (disk w) p"
    and "set (console w) \<subseteq> set (console w')"
  shows "kept env p content w'"
proof (cases "regular (disk w) p = Some content")
  case True
  with assms(2) show ?thesis by (simp add: kept_def)
next
  case False
  with assms(1) obtain typeDir n where "Built typeDir n \<in> set (console w)"
    and "join (join (OUTPUT_DIR env) [typeDir]) [n @ ''.json''] = p"
    by (auto simp: kept_def)
  with assms(3) show ?thesis unfolding kept_def by blast
qed

lemma keeps_returnIO: "keeps env p content (returnIO x)"
  by (simp add: keeps_def returnIO_def)

lemma keeps_throwIO: "keeps env p content (throwIO e)"
  by (simp add: keeps_def throwIO_def)

lemma keeps_unchanged: "unchanged m \<Longrightarrow> keeps env p content m"
  by (simp add: keeps_def unchanged_def)

lemma unchanged_access: "unchanged (access q)"
  by (simp add: unchanged_def access_def)

lemma keeps_print: "keeps env p content (print l)"
proof (rule keepsI)
  fix w
  assume "kept env p content w"
  then show "kept env p content (snd (print l w))"
    by (rule kept_same) (auto simp: print_def)
qed

lemma keeps_bindIO:
  assumes "keeps env p content m" and "\<And>x. keeps env p content (f x)"
  shows "keeps env p content (bindIO m f)"
proof (rule keepsI)
  fix w
  assume w: "kept env p content w"
  from keepsD [OF assms(1) w] have m: "kept env p content (snd (m w))" .
  show "kept env p content (snd (bindIO m f w))"
  proof (cases "m w")
    case (Pair r w')
    with m have w': "kept env p content w'" by simp
    show ?thesis
    proof (cases r)
      case (Inl e)
      with Pair w' show ?thesis by (simp add: bindIO_def)
    next
      case (Inr x)
      from keepsD [OF assms(2) w', of x] Pair Inr show ?thesis by (simp add: bindIO_def)
    qed
  qed
qed

lemma keeps_tryIO:
  assumes "keeps env p content m" and "\<And>e. keeps env p content (h e)"
  shows "keeps env p content (tryIO m h)"
proof (rule keepsI)
  fix w
  assume w: "kept env p content w"
  from keepsD [OF assms(1) w] have m: "kept env p content (snd (m w))" .
  show "kept env p content (snd (tryIO m h w))"
  proof (cases "m w")
    case (Pair r w')
    with m have w': "kept env p content w'" by simp
    show ?thesis
    proof (cases r)
      case (Inl e)
      from keepsD [OF assms(2) w', of e] Pair Inl show ?thesis by (simp add: tryIO_def)
    next
      case (Inr x)
      with Pair w' show ?thesis by (simp add: tryIO_def)
    qed
  qed
qed

lemma keeps_forEachIO:
  assumes "\<And>x st. keeps env p content (body x st)"
  shows "keeps env p content (forEachIO body xs st)"
proof (rule keepsI)
  fix w
  show "kept env p content w \<Longrightarrow> kept env p content (snd (forEachIO body xs st w))"
  proof (induction xs arbitrary: st w)
    case Nil
    then show ?case by simp
  next
    case (Cons x xs)
    from keepsD [OF assms Cons.prems] have b: "kept env p content (snd (body x st w))" .
    show ?case
    proof (cases "body x st w")
      case (Pair r w')
      with b have w': "kept env p content w'" by simp
      show ?thesis
      proof (cases r)
        case (Inl e)
        with Pair w' show ?thesis by simp
      next
        case (Inr st')
        from Cons.IH [OF w', of st'] Pair Inr show ?thesis by simp
      qed
    qed
  qed
qed

lemma mkdirFrom_frame:
  "regular (disk (snd (mkdirFrom base segs w))) = regular (disk w)
   \<and> console (snd (mkdirFrom base segs w)) = console w"
  by (induction base segs w rule: mkdirFrom.induct) simp_all

lemma keeps_mkdir: "keeps env p content (mkdir q)"
proof (rule keepsI)
  fix w
  assume "kept env p content w"
  then show "kept env p content (snd (mkdir q w))"
    by (rule kept_same) (simp_all add: mkdir_def mkdirFrom_frame)
qed

lemma writeFile_frame:
  "console (snd (writeFile q c w)) = console w
   \<and> (q \<noteq> p \<longrightarrow> regular (disk (snd (writeFile q c w))) p = regular (disk w) p)"
  by (simp add: writeFile_def split: option.splits)

lemma keeps_writeFile:
  assumes "q \<noteq> p"
  shows "keeps env p content (writeFile q c)"
proof (rule keepsI)
  fix w
  assume "kept env p content w"
  then show "kept env p content (snd (writeFile q c w))"
    by (rule kept_same) (simp_all add: writeFile_frame assms)
qed

text \<open>The latest file is written and the component reported.\<close>

lemma keeps_writeLatest:
  assumes "\<And>u. keeps env p content (k u)"
  shows "keeps env p content
     (bindIO (writeFile (join (join (OUTPUT_DIR env) [typeDir]) [n @ ''.json'']) c)
        (\<lambda>u. bindIO (print (Built typeDir n)) k))"
proof (cases "join (join (OUTPUT_DIR env) [typeDir]) [n @ ''.json''] = p")
  case False
  then show ?thesis by (intro keeps_bindIO keeps_writeFile keeps_print assms)
next
  case True
  show ?thesis
  proof (rule keepsI)
    fix w
    assume w: "kept env p content w"
    let ?latest = "join (join (OUTPUT_DIR env) [typeDir]) [n @ ''.json'']"
    show "kept env p content (snd (bindIO (writeFile ?latest c) (\<lambda>u. bindIO (print (Built typeDir n)) k) w))"
    proof (cases "writeFile ?latest c w")
      case (Pair r w')
      show ?thesis
      proof (cases r)
        case (Inl e)
        with Pair have "w' = w" by (auto simp: writeFile_def split: if_splits option.splits)
        with Pair Inl w show ?thesis by (simp add: bindIO_def)
      next
        case (Inr u)
        let ?w2 = "w'\<lparr>console := console w' @ [Built typeDir n]\<rparr>"
        from True have "kept env p content ?w2" unfolding kept_def by auto
        from keepsD [OF assms this, of "()"] Pair Inr show ?thesis
          by (simp add: bindIO_def print_def)
      qed
    qed
  qed
qed

text \<open>The versioned file is written only where nothing is.\<close>

lemma keeps_writeVersioned: "keeps env p content (writeVersioned typeDir n v q c)"
proof (cases "q = p")
  case False
  then show ?thesis unfolding writeVersioned_def
    by (intro keeps_tryIO keeps_bindIO keeps_writeFile keeps_print keeps_unchanged unchanged_access)
next
  case True
  show ?thesis
  proof (rule keepsI)
    fix w
    assume w: "kept env p content w"
    show "kept env p content (snd (writeVersioned typeDir n v q c w))"
    proof (cases "regular (disk w) p = Some content")
      case True
      with \<open>q = p\<close> have "access q w = (Inr (), w)" by (simp add: access_def)
      with w show ?thesis by (simp add: writeVersioned_def tryIO_def)
    next
      case False
      with w have bad: "\<exists>typeDir n. Built typeDir n \<in> set (console w)
            \<and> join (join (OUTPUT_DIR env) [typeDir]) [n @ ''.json''] = p"
        by (simp add: kept_def)
      have "set (console w) \<subseteq> set (console (snd (writeVersioned typeDir n v q c w)))"
        by (auto simp: writeVersioned_def tryIO_def bindIO_def print_def access_def writeFile_def
              split: if_splits option.splits)
      with bad show ?thesis unfolding kept_def by blast
    qed
  qed
qed

lemma keeps_writeItem: "keeps env p content (writeItem env typeDir manifest item st)"
  unfolding writeItem_def Let_def
  by (intro keeps_bindIO keeps_mkdir keeps_writeLatest keeps_writeVersioned keeps_returnIO
        keeps_unchanged unchanged_readdir)

lemma keeps_readSource: "keeps env p content (readSource componentDir fileName sources)"
  unfolding readSource_def
  by (intro keeps_bindIO keeps_returnIO keeps_unchanged unchanged_readFile)

lemma keeps_readManifest: "keeps env p content (readManifest componentDir)"
  unfolding readManifest_def
  by (intro keeps_tryIO keeps_bindIO keeps_returnIO keeps_print keeps_unchanged unchanged_readFile)

lemma keeps_buildComponent: "keeps env p content (buildComponent env typeDir dir entry st)"
  unfolding buildComponent_def Let_def
proof (intro keeps_bindIO keeps_readManifest)
  fix manifestRaw
  show "keeps env p content
     (case manifestRaw of
        None \<Rightarrow> returnIO st
      | Some raw \<Rightarrow>
          (case JSON_parse env raw of
             None \<Rightarrow> throwIO SyntaxError
           | Some manifest \<Rightarrow>
               (case files manifest of
                  None \<Rightarrow> throwIO TypeError
                | Some fileNames \<Rightarrow>
                    bindIO (forEachIO (readSource (join dir [entry])) fileNames Map.empty) (\<lambda>sources.
                      case buildRegistryItem (toISOString env) manifest sources of
                        Inl e \<Rightarrow> throwIO e
                      | Inr item \<Rightarrow>
                          writeItem env typeDir manifest item
                            (st\<lparr>allItems := allItems st @ [item]\<rparr>)))))"
    by (auto split: option.splits sum.splits
          intro!: keeps_returnIO keeps_throwIO keeps_bindIO keeps_forEachIO keeps_readSource
            keeps_writeItem)
qed

lemma keeps_buildType: "keeps env p content (buildType env typeDir st)"
  unfolding buildType_def Let_def
proof (rule keeps_bindIO)
  show "keeps env p content
     (tryIO (bindIO (readdir (join (COMPONENTS_DIR env) [typeDir])) (\<lambda>entries. returnIO (Some entries)))
        (\<lambda>e. returnIO None))"
    by (intro keeps_tryIO keeps_bindIO keeps_returnIO keeps_unchanged unchanged_readdir)
  show "keeps env p content
     (case entries of
        None \<Rightarrow> returnIO st
      | Some es \<Rightarrow> forEachIO (buildComponent env typeDir (join (COMPONENTS_DIR env) [typeDir])) es st)"
    for entries
    by (cases entries) (simp_all add: keeps_returnIO keeps_forEachIO keeps_buildComponent)
qed

lemma keeps_build:
  assumes "join (OUTPUT_DIR env) [''registry.json''] \<noteq> p"
  shows "keeps env p content (build env)"
  unfolding build_def
  by (intro keeps_bindIO keeps_forEachIO keeps_buildType keeps_writeFile keeps_print assms)

text \<open>
  What a build overwrites are the latest files of the components it builds, and the
  index: a file that exists before a build and is none of these has the same content
  after it, whether the build succeeds or throws.
\<close>

lemma build_keeps_existing_files:
  assumes present: "regular d p = Some content"
    and latest: "\<forall>typeDir n. Built typeDir n \<in> set (console (snd (runBuild env d)))
                  \<longrightarrow> join (join (OUTPUT_DIR env) [typeDir]) [n @ ''.json''] \<noteq> p"
    and index: "join (OUTPUT_DIR env) [''registry.json''] \<noteq> p"
  shows "regular (disk (snd (runBuild env d))) p = Some content"
proof -
  let ?w0 = "\<lparr>disk = d, console = []\<rparr>"
  from present have "kept env p content ?w0" by (simp add: kept_def)
  from keepsD [OF keeps_build [OF index] this]
  have k: "kept env p content (snd (build env ?w0))" .
  have "kept env p content (snd (runBuild env d))"
  proof (cases "build env ?w0")
    case (Pair r w)
    with k have w: "kept env p content w" by simp
    show ?thesis
    proof (cases r)
      case (Inl e)
      from w have "kept env p content (w\<lparr>console := console w @ [Threw e]\<rparr>)"
        by (rule kept_same) auto
      with Pair Inl show ?thesis by (simp add: runBuild_def)
    next
      case (Inr u)
      with Pair w show ?thesis by (simp add: runBuild_def)
    qed
  qed
  with latest show ?thesis unfolding kept_def by blast
qed

section \<open>Two builds\<close>

text \<open>
  A repository with the tool \<open>foo\<close> at version 1.0.0, built before: its stamped file
  is in the output directory.
\<close>

definition stampedDisk :: filesystem where
  "stampedDisk =
     \<lparr>regular =
        [[''repo'', ''components'', ''tools'', ''foo'', ''manifest.json''] \<mapsto> ''foo manifest'',
         [''repo'', ''r'', ''tools'', ''foo@1.0.0.json''] \<mapsto> ''old snapshot''],
      dirs =
        [[''repo''] \<mapsto> [''components'', ''r''],
         [''repo'', ''components'', ''tools''] \<mapsto> [''foo''],
         [''repo'', ''r''] \<mapsto> [''tools''],
         [''repo'', ''r'', ''tools''] \<mapsto> [''foo@1.0.0.json'']]\<rparr>"

lemma sample_stringify:
  "JSON_stringify sampleEnv j = (case field j ''updatedAt'' of Some (JStr t) \<Rightarrow> t | _ \<Rightarrow> [])"
  by (simp add: sampleEnv_def)

lemma sample_item:
  "buildRegistryItem now (manifestOf n t [] v) fc =
     Inr (JObj [(''$schema'', JStr ''https://kitn.dev/schema/registry-item.json''),
                (''name'', JStr n), (''type'', JStr (typeName t)),
                (''description'', JStr ''A component''), (''files'', JArr []),
                (''version'', JStr v), (''updatedAt'', JStr now)])"
  by (simp add: buildRegistryItem_result [where fs = "[]"] manifestOf_def property_def)

lemmas build_defs = runBuild_def build_def typeDirs_def buildType_def buildComponent_def
  readManifest_def writeItem_def writeVersioned_def io_defs print_def access_def writeFile_def
  mkdir_def path_defs Let_def sampleEnv_fields sample_stringify sampleManifests_def
  manifestOf_fields sample_item field_def buildRegistryIndex_def

lemma stamped_console:
  "console (snd (runBuild sampleEnv stampedDisk)) = [Built ''tools'' ''foo'', RegistryIndex 1]"
  by (simp add: build_defs stampedDisk_def)

lemma stamped_latest:
  "regular (disk (snd (runBuild sampleEnv stampedDisk))) [''repo'', ''r'', ''tools'', ''foo.json'']
     = Some ''2026-01-01T00:00:00.000Z''"
  by (simp add: build_defs stampedDisk_def)

text \<open>
  The build of this repository writes the latest file of \<open>foo\<close> and leaves the
  stamped file as it is.
\<close>

lemma stamped_file_kept:
  "regular stampedDisk [''repo'', ''r'', ''tools'', ''foo@1.0.0.json''] = Some ''old snapshot''
   \<and> regular (disk (snd (runBuild sampleEnv stampedDisk))) [''repo'', ''r'', ''tools'', ''foo@1.0.0.json'']
       = Some ''old snapshot''
   \<and> regular (disk (snd (runBuild sampleEnv stampedDisk))) [''repo'', ''r'', ''tools'', ''foo.json'']
       = Some ''2026-01-01T00:00:00.000Z''
   \<and> console (snd (runBuild sampleEnv stampedDisk)) = [Built ''tools'' ''foo'', RegistryIndex 1]"
proof -
  have present: "regular stampedDisk [''repo'', ''r'', ''tools'', ''foo@1.0.0.json''] = Some ''old snapshot''"
    by (simp add: stampedDisk_def)
  have latest: "\<forall>typeDir n. Built typeDir n \<in> set (console (snd (runBuild sampleEnv stampedDisk)))
      \<longrightarrow> join (join (OUTPUT_DIR sampleEnv) [typeDir]) [n @ ''.json'']
           \<noteq> [''repo'', ''r'', ''tools'', ''foo@1.0.0.json'']"
    by (simp add: stamped_console path_defs sampleEnv_fields)
  have index: "join (OUTPUT_DIR sampleEnv) [''registry.json'']
      \<noteq> [''repo'', ''r'', ''tools'', ''foo@1.0.0.json'']"
    by (simp add: path_defs sampleEnv_fields)
  from build_keeps_existing_files [OF present latest index] present stamped_latest stamped_console
  show ?thesis by simp
qed

text \<open>The same repository with a second tool, whose name is \<open>foo@1.0.0\<close>.\<close>

definition collidingDisk :: filesystem where
  "collidingDisk =
     \<lparr>regular =
        [[''repo'', ''components'', ''tools'', ''foo'', ''manifest.json''] \<mapsto> ''foo manifest'',
         [''repo'', ''components'', ''tools'', ''foo@1.0.0'', ''manifest.json''] \<mapsto> ''foo@1.0.0 manifest'',
         [''repo'', ''r'', ''tools'', ''foo@1.0.0.json''] \<mapsto> ''old snapshot''],
      dirs =
        [[''repo''] \<mapsto> [''components'', ''r''],
         [''repo'', ''components'', ''tools''] \<mapsto> [''foo'', ''foo@1.0.0''],
         [''repo'', ''r''] \<mapsto> [''tools''],
         [''repo'', ''r'', ''tools''] \<mapsto> [''foo@1.0.0.json'']]\<rparr>"

text \<open>
  C3: the claim is that a version-stamped file \<open><type>/<name>@<version>.json\<close>, once
  written, keeps its content in every later build, only the latest file being
  overwritten. The script writes the stamped file only where \<open>access\<close> throws, and
  calls it immutable; but it writes the latest file \<open><type>/<name>.json\<close> of every
  component without a check, and takes the name of a component as it is. The latest
  file of a tool named \<open>foo@1.0.0\<close> is \<open>tools/foo@1.0.0.json\<close>, the stamped file of
  the tool \<open>foo\<close> at 1.0.0: in the repository with both tools the build succeeds and
  replaces the content of that file.
\<close>

theorem stamped_file_overwritten:
  "JSON_parse sampleEnv ''foo manifest'' = Some (manifestOf ''foo'' KitnTool [] ''1.0.0'')
   \<and> JSON_parse sampleEnv ''foo@1.0.0 manifest'' = Some (manifestOf ''foo@1.0.0'' KitnTool [] ''2.0.0'')
   \<and> join (join (OUTPUT_DIR sampleEnv) [''tools'']) [''foo'' @ ''@'' @ ''1.0.0'' @ ''.json'']
       = [''repo'', ''r'', ''tools'', ''foo@1.0.0.json'']
   \<and> regular collidingDisk [''repo'', ''r'', ''tools'', ''foo@1.0.0.json''] = Some ''old snapshot''
   \<and> regular (disk (snd (runBuild sampleEnv collidingDisk))) [''repo'', ''r'', ''tools'', ''foo@1.0.0.json'']
       = Some ''2026-01-01T00:00:00.000Z''
   \<and> fst (runBuild sampleEnv collidingDisk) = 0
   \<and> console (snd (runBuild sampleEnv collidingDisk))
       = [Built ''tools'' ''foo'', Built ''tools'' ''foo@1.0.0'',
          Versioned ''tools'' ''foo@1.0.0'' ''2.0.0'', RegistryIndex 2]"
  by (simp add: build_defs collidingDisk_def)

end
